theory Spec2Isabelle
  imports Main "HOL-Library.Word" "HOL-Library.Sublist" "HOL-Library.AList"
begin

section \<open>The Wavy HLS server (src/server.cpp): embedding\<close>

text \<open>
  The server is C++ over Boost.Asio/Beast, Boost.Filesystem and libarchive. The embedding
  keeps the control flow of every function of \<^verbatim>\<open>server.cpp\<close> that the properties below
  are about, and makes the world outside the process explicit:
  \<^item> a \<^verbatim>\<open>std::string\<close> is a \<open>string\<close> (a list of 8-bit \<open>char\<close>s); a
    \<^verbatim>\<open>std::vector<uint8_t>\<close> is a list of \<open>8 word\<close>;
  \<^item> the file system is a store from path strings to nodes; every function that touches
    the disk takes the store and returns the new one;
  \<^item> the outcome of a call that the program cannot determine (a stream that fails to open,
    the error code of an asynchronous operation, the UUID drawn) is an input, collected in
    the record \<open>env\<close>;
  \<^item> the asynchronous operations a session starts on its socket are recorded as a list of
    events, in the order in which the completion handlers start them.
\<close>

subsection \<open>Strings\<close>

text \<open>\<^verbatim>\<open>std::string::ends_with\<close>.\<close>

definition ends_with :: "string \<Rightarrow> string \<Rightarrow> bool" where
  "ends_with s x = suffix x s"

text \<open>
  \<^verbatim>\<open>std::string::find(pat)\<close> from position 0: the first index at which \<open>pat\<close> occurs,
  \<open>None\<close> for \<^verbatim>\<open>npos\<close>.
\<close>

fun string_find :: "string \<Rightarrow> string \<Rightarrow> nat option" where
  "string_find [] pat = (if pat = [] then Some 0 else None)"
| "string_find (c # cs) pat =
     (if prefix pat (c # cs) then Some 0 else map_option Suc (string_find cs pat))"

text \<open>
  \<^verbatim>\<open>std::string::find_last_of\<close> for one character: the index of its last occurrence,
  \<open>None\<close> for \<^verbatim>\<open>npos\<close>.
\<close>

fun find_last_of :: "string \<Rightarrow> char \<Rightarrow> nat option" where
  "find_last_of [] ch = None"
| "find_last_of (c # cs) ch =
     (case find_last_of cs ch of
        Some i \<Rightarrow> Some (Suc i)
      | None \<Rightarrow> (if c = ch then Some 0 else None))"

text \<open>\<^verbatim>\<open>s.substr(pos)\<close> and \<^verbatim>\<open>s.substr(0, n)\<close>, for positions inside the string.\<close>

definition substr_from :: "string \<Rightarrow> nat \<Rightarrow> string" where
  "substr_from s pos = drop pos s"

definition substr_to :: "string \<Rightarrow> nat \<Rightarrow> string" where
  "substr_to s n = take n s"

definition CRLF :: string where
  "CRLF = [CHR 0x0D, CHR 0x0A]"

text \<open>
  The loop \<^verbatim>\<open>while (std::getline(iss, token, '/')) if (!token.empty()) parts.push_back(token)\<close>
  of \<open>handle_download\<close>. One \<^verbatim>\<open>getline\<close> takes the characters up to the next \<^verbatim>\<open>'/'\<close>
  and consumes the delimiter; it fails, and the loop ends, when nothing is left to read.
\<close>

function getline_parts :: "string \<Rightarrow> string list \<Rightarrow> string list" where
  "getline_parts iss parts =
     (if iss = [] then parts
      else
        (let token = takeWhile (\<lambda>c. c \<noteq> CHR ''/'') iss;
             rest = drop (Suc (length token)) iss
         in getline_parts rest (if token \<noteq> [] then parts @ [token] else parts)))"
  by pat_completeness auto
termination
  by (relation "measure (\<lambda>(iss, parts). length iss)") auto

subsection \<open>Build-time constants\<close>

text \<open>
  Modelled from the spec: the constants of \<^verbatim>\<open>include/macros.hpp\<close>, which is not among the
  sources. The spec (sections 4.1, 4.2, 4.5, 6) names the playlist header \<^verbatim>\<open>#EXTM3U\<close>, the
  sync byte \<^verbatim>\<open>0x47\<close>, the extensions \<^verbatim>\<open>.m3u8\<close>, \<^verbatim>\<open>.ts\<close>, \<^verbatim>\<open>.m4s\<close>,
  \<^verbatim>\<open>.mp4\<close> and \<^verbatim>\<open>.zst\<close>, the staged archive name \<^verbatim>\<open><asset-id>.tar.gz\<close>, the
  media type \<^verbatim>\<open>application/octet-stream\<close>, the listing route \<^verbatim>\<open>/hls/clients\<close> and the
  default ceiling of 200 MiB. Every extension is taken with its dot, as the spec writes
  it. The storage root and the temporary root are siblings under one parent, as the spec
  and the header comment of the source require.
\<close>

definition PLAYLIST_EXT :: string where "PLAYLIST_EXT = ''.m3u8''"
definition TRANSPORT_STREAM_EXT :: string where "TRANSPORT_STREAM_EXT = ''.ts''"
definition M4S_FILE_EXT :: string where "M4S_FILE_EXT = ''.m4s''"
definition MP4_FILE_EXT :: string where "MP4_FILE_EXT = ''.mp4''"
definition ZSTD_FILE_EXT :: string where "ZSTD_FILE_EXT = ''.zst''"
definition COMPRESSED_ARCHIVE_EXT :: string where "COMPRESSED_ARCHIVE_EXT = ''.tar.gz''"
definition PLAYLIST_GLOBAL_HEADER :: string where "PLAYLIST_GLOBAL_HEADER = ''#EXTM3U''"
definition TRANSPORT_STREAM_START_BYTE :: "8 word" where "TRANSPORT_STREAM_START_BYTE = 0x47"
definition CONTENT_TYPE_OCTET_STREAM :: string where
  "CONTENT_TYPE_OCTET_STREAM = ''application/octet-stream''"
definition SERVER_STORAGE_DIR :: string where "SERVER_STORAGE_DIR = ''/tmp/hls_storage''"
definition SERVER_TEMP_STORAGE_DIR :: string where "SERVER_TEMP_STORAGE_DIR = ''/tmp/hls_temp''"
definition SERVER_PATH_HLS_CLIENTS :: string where "SERVER_PATH_HLS_CLIENTS = ''/hls/clients''"
definition WAVY_SERVER_AUDIO_SIZE_LIMIT :: nat where "WAVY_SERVER_AUDIO_SIZE_LIMIT = 200"

text \<open>
  Modelled from the spec: the response texts \<^verbatim>\<open>macros::SERVER_ERROR_nnn\<close> of
  \<^verbatim>\<open>include/macros.hpp\<close>. Their wording is not in the sources; each is a constructor of
  its own, and \<open>status_code\<close> gives the status the spec (sections 6 and 7) attaches to it.
  A response the source writes out itself is \<open>Text\<close>, and its status is read from the
  status line \<^verbatim>\<open>HTTP/1.1 nnn\<close>.
\<close>

datatype message =
    SERVER_ERROR_400
  | SERVER_ERROR_404
  | SERVER_ERROR_405
  | SERVER_ERROR_413
  | SERVER_ERROR_500
  | Text string

definition digits_to_nat :: "string \<Rightarrow> nat" where
  "digits_to_nat ds = foldl (\<lambda>n c. 10 * n + (of_char c - 48)) 0 ds"

fun status_code :: "message \<Rightarrow> nat" where
  "status_code SERVER_ERROR_400 = 400"
| "status_code SERVER_ERROR_404 = 404"
| "status_code SERVER_ERROR_405 = 405"
| "status_code SERVER_ERROR_413 = 413"
| "status_code SERVER_ERROR_500 = 500"
| "status_code (Text s) = digits_to_nat (take 3 (drop 9 s))"

subsection \<open>The file system\<close>

text \<open>
  A path is resolved the way the operating system walks it: the text is cut at every
  \<^verbatim>\<open>'/'\<close>, and the empty pieces and the pieces \<^verbatim>\<open>.\<close> are dropped, so that
  \<^verbatim>\<open>dir/name\<close>, \<^verbatim>\<open>dir//name\<close> and \<^verbatim>\<open>dir/./name\<close> are one place. \<open>canonical\<close> is the
  text of that place: its components, each after a \<^verbatim>\<open>'/'\<close>. The paths of the program
  are absolute, since its two roots are. A component \<^verbatim>\<open>..\<close> is kept as it is written: the
  model does not follow it to the parent, and the store says what is found at the end of
  such a path.
\<close>

fun split_slash :: "string \<Rightarrow> string \<Rightarrow> string list" where
  "split_slash [] cur = [cur]"
| "split_slash (c # cs) cur =
     (if c = CHR ''/'' then cur # split_slash cs [] else split_slash cs (cur @ [c]))"

definition path_components :: "string \<Rightarrow> string list" where
  "path_components p = filter (\<lambda>c. c \<noteq> [] \<and> c \<noteq> ''.'') (split_slash p [])"

definition join_path :: "string list \<Rightarrow> string" where
  "join_path cs = concat (map (\<lambda>c. CHR ''/'' # c) cs)"

definition canonical :: "string \<Rightarrow> string" where
  "canonical p = join_path (path_components p)"

text \<open>
  A name that leads to a place below the directory it is resolved in: it has a component,
  and none of its components is \<^verbatim>\<open>..\<close>. For paths made of such names the text of a
  place and the place on the disk are the same thing.
\<close>

definition descends :: "string \<Rightarrow> bool" where
  "descends name \<longleftrightarrow> path_components name \<noteq> [] \<and> ''..'' \<notin> set (path_components name)"

text \<open>
  A node is a regular file or a directory. A file carries whether a read stream on it
  opens, and its bytes. The store is an association list from places to nodes;
  \<open>fs_node\<close> is the node a path leads to. The calls into Boost.Filesystem are modelled
  where they succeed; the exception the program meets when it reads a directory through
  a stream is modelled with the sweep, below.
\<close>

datatype node = File bool string | Dir

type_synonym filesystem = "(string \<times> node) list"

definition fs_node :: "filesystem \<Rightarrow> string \<Rightarrow> node option" where
  "fs_node fs p = map_of fs (canonical p)"

definition fs_exists :: "filesystem \<Rightarrow> string \<Rightarrow> bool" where
  "fs_exists fs p \<longleftrightarrow> fs_node fs p \<noteq> None"

definition fs_is_directory :: "filesystem \<Rightarrow> string \<Rightarrow> bool" where
  "fs_is_directory fs p \<longleftrightarrow> fs_node fs p = Some Dir"

definition fs_is_regular_file :: "filesystem \<Rightarrow> string \<Rightarrow> bool" where
  "fs_is_regular_file fs p = (case fs_node fs p of Some (File r b) \<Rightarrow> True | _ \<Rightarrow> False)"

definition fs_file_size :: "filesystem \<Rightarrow> string \<Rightarrow> nat" where
  "fs_file_size fs p = (case fs_node fs p of Some (File r b) \<Rightarrow> length b | _ \<Rightarrow> 0)"

text \<open>
  \<^verbatim>\<open>std::ifstream file(path, std::ios::binary)\<close> read through the stream's own
  operations: the bytes of the file when the stream opens and reads, \<open>None\<close> when it does
  not. On a directory the stream opens and its first read fails; \<^verbatim>\<open>istream::read\<close>
  reports that through the state of the stream, so nothing is read there either.
\<close>

definition ifstream :: "filesystem \<Rightarrow> string \<Rightarrow> string option" where
  "ifstream fs p =
     (case fs_node fs p of Some (File r b) \<Rightarrow> (if r then Some b else None) | _ \<Rightarrow> None)"

text \<open>
  An opened \<^verbatim>\<open>std::ofstream\<close> written and closed: the file holds the bytes written. A
  file that was there keeps its read permission.
\<close>

definition ofstream_write :: "filesystem \<Rightarrow> string \<Rightarrow> string \<Rightarrow> filesystem" where
  "ofstream_write fs p bytes =
     AList.update (canonical p)
       (File (case fs_node fs p of Some (File r b) \<Rightarrow> r | _ \<Rightarrow> True) bytes) fs"

text \<open>
  \<^verbatim>\<open>fs::create_directories\<close>: the directory and every missing directory above it.
  \<open>directories p\<close> are the places on the way to \<open>p\<close>, from the top, \<open>p\<close> last.
\<close>

definition directories :: "string \<Rightarrow> string list" where
  "directories p =
     map (\<lambda>i. join_path (take i (path_components p))) [1..<Suc (length (path_components p))]"

definition mkdir :: "filesystem \<Rightarrow> string \<Rightarrow> filesystem" where
  "mkdir fs d = (if map_of fs d \<noteq> None then fs else AList.update d Dir fs)"

definition fs_create_directories :: "filesystem \<Rightarrow> string \<Rightarrow> filesystem" where
  "fs_create_directories fs p = foldl mkdir fs (directories p)"

text \<open>\<^verbatim>\<open>fs::remove\<close> and \<^verbatim>\<open>std::remove\<close> of a file, and \<^verbatim>\<open>fs::rename\<close>.\<close>

definition fs_remove :: "filesystem \<Rightarrow> string \<Rightarrow> filesystem" where
  "fs_remove fs p = AList.delete (canonical p) fs"

definition fs_rename :: "filesystem \<Rightarrow> string \<Rightarrow> string \<Rightarrow> filesystem" where
  "fs_rename fs old new =
     (case fs_node fs old of
        None \<Rightarrow> fs
      | Some n \<Rightarrow> AList.update (canonical new) n (AList.delete (canonical old) fs))"

text \<open>
  \<^verbatim>\<open>fs::directory_iterator(dir)\<close>: the paths of the entries directly in \<open>dir\<close>, each
  once, in the order of the store: the places one component below the place of \<open>dir\<close>.
  The iterator does not yield \<^verbatim>\<open>.\<close> and \<^verbatim>\<open>..\<close>. \<open>path_filename\<close> is
  \<^verbatim>\<open>path().filename().string()\<close>.
\<close>

definition is_entry_of :: "string \<Rightarrow> string \<Rightarrow> bool" where
  "is_entry_of dir p \<longleftrightarrow>
     prefix (dir @ ''/'') p \<and> drop (Suc (length dir)) p \<noteq> [] \<and>
     CHR ''/'' \<notin> set (drop (Suc (length dir)) p) \<and>
     drop (Suc (length dir)) p \<noteq> ''.'' \<and> drop (Suc (length dir)) p \<noteq> ''..''"

definition fs_directory_iterator :: "filesystem \<Rightarrow> string \<Rightarrow> string list" where
  "fs_directory_iterator fs dir = remdups (filter (is_entry_of (canonical dir)) (map fst fs))"

definition path_filename :: "string \<Rightarrow> string" where
  "path_filename p = (case find_last_of p CHR ''/'' of None \<Rightarrow> p | Some i \<Rightarrow> drop (Suc i) p)"

subsection \<open>Requests, events and the environment\<close>

datatype verb = get | post | other_verb

record request =
  http_method :: verb
  target :: string
  body :: string

text \<open>What reaches the server on a connection: a whole request, or a broken transfer.\<close>

datatype incoming = Request request | Broken

datatype error_code = success | body_limit | other_error

record http_response =
  result :: nat
  server :: string
  content_type :: string
  payload :: string

text \<open>
  The operations a session starts on its TLS stream and socket:
  \<^verbatim>\<open>boost::asio::async_write\<close> of a message, \<^verbatim>\<open>http::async_write\<close> of a response object,
  \<^verbatim>\<open>socket_.async_shutdown\<close> (the TLS shutdown) and \<^verbatim>\<open>socket_.lowest_layer().close()\<close>.
  The last event, \<open>uncaught\<close>, is not an operation: it records that an exception left
  the completion handler, which no \<^verbatim>\<open>try\<close> block of the session catches; the handler
  starts nothing after it.
\<close>

datatype thrown = ios_base_failure

datatype event =
    async_write message
  | http_async_write http_response
  | async_shutdown
  | socket_close
  | uncaught thrown

text \<open>
  An entry of the uploaded tar archive, as \<^verbatim>\<open>archive_read_next_header\<close> and
  \<^verbatim>\<open>archive_read_data\<close> deliver it: a regular file or a directory, with its name and,
  for a file, its bytes. \<open>header_ok\<close> says that \<^verbatim>\<open>archive_write_header\<close> returns
  \<^verbatim>\<open>ARCHIVE_OK\<close> for it; \<open>perm_read\<close> and \<open>perm_write\<close> say whether the file created
  with the permission bits of the header opens for reading and for writing. Entries of
  other types (links, devices) are outside the model.
\<close>

datatype filetype = AE_IFREG | AE_IFDIR

record tar_entry =
  pathname :: string
  entry_filetype :: filetype
  entry_data :: string
  header_ok :: bool
  perm_read :: bool
  perm_write :: bool

text \<open>
  The environment of one session: what the program takes from outside its own text.
  \<^item> \<open>uuid\<close>: the result of \<^verbatim>\<open>boost::uuids::random_generator()()\<close>;
  \<^item> \<open>archive_read\<close>: libarchive reading bytes as a gzip-compressed tar, \<open>None\<close> when the
    archive does not open;
  \<^item> \<open>zstd\<close>: the block decompressor on bytes, \<open>None\<close> when it fails;
  \<^item> \<open>toml_path\<close>: the \<^verbatim>\<open>path\<close> field of \<^verbatim>\<open>parseAudioMetadataFromDataString\<close>'s result;
  \<^item> \<open>NETWORK_TEXT_DELIM\<close>: the top boundary marker, a build-time constant whose value
    neither the sources nor the spec give;
  \<^item> \<open>ofs_open_ok\<close>, \<open>ofs_write_ok\<close>, \<open>ofs_written\<close>: whether the output stream of
    \<open>handle_upload\<close> opens, whether it is good after the write, and how many bytes reached
    the file when it is not;
  \<^item> \<open>handshake_ec\<close>, \<open>write_ec\<close>, \<open>write_complete\<close>, \<open>shutdown_ec\<close>: the error codes
    handed to the completion handlers (\<open>True\<close>: an error), and whether
    \<^verbatim>\<open>bytes_transferred\<close> equals the size of the message.
\<close>

record env =
  uuid :: string
  archive_read :: "string \<Rightarrow> tar_entry list option"
  zstd :: "string \<Rightarrow> string option"
  toml_path :: "string \<Rightarrow> string"
  NETWORK_TEXT_DELIM :: string
  ofs_open_ok :: bool
  ofs_write_ok :: bool
  ofs_written :: nat
  handshake_ec :: bool
  write_ec :: bool
  write_complete :: bool
  shutdown_ec :: bool

subsection \<open>Format validators\<close>

definition is_valid_extension :: "string \<Rightarrow> bool" where
  "is_valid_extension filename \<longleftrightarrow>
     ends_with filename PLAYLIST_EXT \<or> ends_with filename TRANSPORT_STREAM_EXT \<or>
     ends_with filename M4S_FILE_EXT"

definition validate_m3u8_format :: "string \<Rightarrow> bool" where
  "validate_m3u8_format content \<longleftrightarrow> string_find content PLAYLIST_GLOBAL_HEADER \<noteq> None"

definition validate_ts_file :: "8 word list \<Rightarrow> bool" where
  "validate_ts_file data \<longleftrightarrow> data \<noteq> [] \<and> data ! 0 = TRANSPORT_STREAM_START_BYTE"

text \<open>
  \<open>validate_m4s\<close> reads the first 12 bytes (\<^verbatim>\<open>file.read\<close>, \<^verbatim>\<open>gcount\<close>), takes bytes 4 to 7
  as the box type, rewinds and scans the whole contents.
\<close>

definition validate_m4s :: "filesystem \<Rightarrow> string \<Rightarrow> bool" where
  "validate_m4s fs m4s_path =
     (case ifstream fs m4s_path of
        None \<Rightarrow> False
      | Some bytes \<Rightarrow>
          (let header = take 12 bytes in
           if length header < 12 then False
           else
             (let box_type = take 4 (drop 4 header) in
              if box_type \<noteq> ''ftyp'' then False
              else
                (let content = bytes in
                 if string_find content ''moof'' = None \<or> string_find content ''mdat'' = None
                 then False
                 else True))))"

subsection \<open>Archive extraction\<close>

text \<open>
  Modelled from the spec: \<^verbatim>\<open>ZSTD_decompress_file\<close> of \<^verbatim>\<open>include/decompression.h\<close>, which
  is not among the sources. Section 4.2: the block decompressor is invoked on the file in
  place and produces a sibling file with the suffix stripped; on failure the compressed
  file is kept. The decoding of the bytes is the environment's \<open>zstd\<close>.
\<close>

definition ZSTD_decompress_file :: "env \<Rightarrow> filesystem \<Rightarrow> string \<Rightarrow> bool \<times> filesystem" where
  "ZSTD_decompress_file e fs path =
     (case ifstream fs path of
        None \<Rightarrow> (False, fs)
      | Some bytes \<Rightarrow>
          (case zstd e bytes of
             None \<Rightarrow> (False, fs)
           | Some plain \<Rightarrow>
               (True,
                ofstream_write fs
                  (substr_to path (case find_last_of path CHR ''.'' of None \<Rightarrow> length path | Some i \<Rightarrow> i))
                  plain)))"

text \<open>
  \<^verbatim>\<open>archive_write_header(ext, entry)\<close> on the disk writer, where it returns
  \<^verbatim>\<open>ARCHIVE_OK\<close>. For a directory entry it makes the directory and the directories
  above it. For a file entry it makes the directories above the file, as it does for a
  nested name such as \<^verbatim>\<open>sub/seg_0.ts\<close>, and creates the file, empty, with the
  permissions of the header. The writer is set up with \<^verbatim>\<open>ARCHIVE_EXTRACT_PERM\<close> only:
  where it needs a directory and finds something else, it replaces it.
\<close>

definition make_directory :: "filesystem \<Rightarrow> string \<Rightarrow> filesystem" where
  "make_directory fs d = (if map_of fs d = Some Dir then fs else AList.update d Dir fs)"

definition archive_write_header :: "filesystem \<Rightarrow> string \<Rightarrow> tar_entry \<Rightarrow> filesystem" where
  "archive_write_header fs output_file entry =
     (case entry_filetype entry of
        AE_IFDIR \<Rightarrow> foldl make_directory fs (directories output_file)
      | AE_IFREG \<Rightarrow>
          AList.update (canonical output_file) (File (perm_read entry) [])
            (foldl make_directory fs (butlast (directories output_file))))"

text \<open>
  The \<^verbatim>\<open>while (archive_read_next_header(a, &entry) == ARCHIVE_OK)\<close> loop of
  \<open>extract_payload\<close>, over the entries libarchive yields. The flag is
  \<^verbatim>\<open>valid_files_found\<close>. The output stream does not open on a file without write
  permission, nor on a directory. \<^verbatim>\<open>find_last_of(".") + 1\<close> is 0 when there is no dot
  (\<^verbatim>\<open>npos + 1\<close> wraps). Each \<^verbatim>\<open>continue\<close> is a recursive call on the remaining
  entries.
\<close>

fun extract_entries ::
  "env \<Rightarrow> string \<Rightarrow> tar_entry list \<Rightarrow> bool \<Rightarrow> filesystem \<Rightarrow> bool \<times> filesystem" where
  "extract_entries e extract_path [] valid_files_found fs = (valid_files_found, fs)"
| "extract_entries e extract_path (entry # entries) valid_files_found fs =
     (let filename = pathname entry;
          output_file = extract_path @ ''/'' @ filename
      in
        if header_ok entry then
          (let fs0 = archive_write_header fs output_file entry in
           if \<not> perm_write entry \<or> fs_is_directory fs0 output_file then
             extract_entries e extract_path entries valid_files_found fs0
           else
             (let fs1 = ofstream_write fs0 output_file (entry_data entry) in
              if substr_from output_file
                   (case find_last_of output_file CHR ''.'' of None \<Rightarrow> 0 | Some i \<Rightarrow> i + 1)
                 = ZSTD_FILE_EXT
              then
                (case ZSTD_decompress_file e fs1 output_file of
                   (False, fs2) \<Rightarrow> extract_entries e extract_path entries True fs2
                 | (True, fs2) \<Rightarrow>
                     extract_entries e extract_path entries True (fs_remove fs2 output_file))
              else extract_entries e extract_path entries True fs1))
        else extract_entries e extract_path entries valid_files_found fs)"

definition extract_payload :: "env \<Rightarrow> string \<Rightarrow> string \<Rightarrow> filesystem \<Rightarrow> bool \<times> filesystem" where
  "extract_payload e payload_path extract_path fs =
     (case ifstream fs payload_path of
        None \<Rightarrow> (False, fs)
      | Some bytes \<Rightarrow>
          (case archive_read e bytes of
             None \<Rightarrow> (False, fs)
           | Some entries \<Rightarrow> extract_entries e extract_path entries False fs))"

subsection \<open>Staging sweep and promotion\<close>

text \<open>
  \<open>read_data\<close> is the vector the sweep fills from \<^verbatim>\<open>std::istreambuf_iterator\<close> on the
  input stream of a listed entry. When the stream does not open, the iterator is at its
  end at once and the vector is empty. On a directory the stream opens and the read of
  the underlying buffer fails; the iterator works on the buffer, not through the
  stream's state, and the buffer throws \<^verbatim>\<open>std::ios_base::failure\<close>. Nothing in the
  program catches it: the sweep, \<open>extract_and_validate\<close> and \<open>handle_upload\<close> are left
  at that point.
\<close>

definition read_data :: "filesystem \<Rightarrow> string \<Rightarrow> thrown + 8 word list" where
  "read_data fs file =
     (if fs_is_directory fs file then Inl ios_base_failure
      else
        (case ifstream fs file of
           None \<Rightarrow> Inr []
         | Some bytes \<Rightarrow> Inr (map of_char bytes)))"

text \<open>
  The body of the \<^verbatim>\<open>for\<close> loop of \<open>extract_and_validate\<close> up to the rename: the read,
  then the chain of extension tests. The result is \<open>False\<close> with the file removed where
  the source removes it and \<^verbatim>\<open>continue\<close>s, and \<open>True\<close> where control reaches the
  rename.
\<close>

definition validate_staged_file :: "filesystem \<Rightarrow> string \<Rightarrow> thrown + bool \<times> filesystem" where
  "validate_staged_file fs file =
     (let fname = path_filename file in
      case read_data fs file of
        Inl failure \<Rightarrow> Inl failure
      | Inr data \<Rightarrow>
          Inr
            (if ends_with fname PLAYLIST_EXT then
               (if \<not> validate_m3u8_format (map (\<lambda>w. char_of (unat w)) data)
                then (False, fs_remove fs file)
                else (True, fs))
             else if ends_with fname TRANSPORT_STREAM_EXT then
               (if \<not> validate_ts_file data then (False, fs_remove fs file)
                else (True, fs))
             else if ends_with fname M4S_FILE_EXT then
               (if \<not> validate_m4s fs file then (True, fs)
                else (True, fs))
             else if ends_with fname MP4_FILE_EXT then (True, fs)
             else (False, fs_remove fs file)))"

text \<open>
  The loop over the staging directory; the counter is \<^verbatim>\<open>valid_file_count\<close>. An
  exception ends the loop with the store as it is then.
\<close>

fun validate_files ::
  "string \<Rightarrow> string list \<Rightarrow> nat \<Rightarrow> filesystem \<Rightarrow> (thrown + nat) \<times> filesystem" where
  "validate_files storage_path [] valid_file_count fs = (Inr valid_file_count, fs)"
| "validate_files storage_path (file # files) valid_file_count fs =
     (case validate_staged_file fs file of
        Inl failure \<Rightarrow> (Inl failure, fs)
      | Inr (False, fs') \<Rightarrow> validate_files storage_path files valid_file_count fs'
      | Inr (True, fs') \<Rightarrow>
          validate_files storage_path files (valid_file_count + 1)
            (fs_rename fs' file (storage_path @ ''/'' @ path_filename file)))"

definition extract_and_validate ::
  "env \<Rightarrow> string \<Rightarrow> string \<Rightarrow> string \<Rightarrow> filesystem \<Rightarrow> (thrown + bool) \<times> filesystem" where
  "extract_and_validate e gzip_path audio_id ip_id fs =
     (if \<not> fs_exists fs gzip_path then (Inr False, fs)
      else
        (let temp_extract_path = SERVER_TEMP_STORAGE_DIR @ ''/'' @ audio_id;
             fs1 = fs_create_directories fs temp_extract_path
         in
           case extract_payload e gzip_path temp_extract_path fs1 of
             (False, fs2) \<Rightarrow> (Inr False, fs2)
           | (True, fs2) \<Rightarrow>
               (let storage_path = SERVER_STORAGE_DIR @ ''/'' @ ip_id @ ''/'' @ audio_id;
                    fs3 = fs_create_directories fs2 storage_path
                in
                  case validate_files storage_path
                         (fs_directory_iterator fs3 temp_extract_path) 0 fs3 of
                    (Inl failure, fs4) \<Rightarrow> (Inl failure, fs4)
                  | (Inr valid_file_count, fs4) \<Rightarrow>
                      if valid_file_count = 0 then (Inr False, fs4) else (Inr True, fs4))))"

text \<open>
  Whether the sweep, at a listed entry, reaches the rename: the entry is read without an
  exception and passes the chain of tests.
\<close>

definition reaches_rename :: "filesystem \<Rightarrow> string \<Rightarrow> bool" where
  "reaches_rename fs file =
     (case validate_staged_file fs file of Inl failure \<Rightarrow> False | Inr (ok, fs') \<Rightarrow> ok)"

subsection \<open>The session\<close>

text \<open>
  \<open>send_response\<close>: the write, then in its completion handler \<open>do_shutdown\<close> on each of
  the three paths; the handler of the shutdown closes the socket whatever \<open>shutdown_ec\<close>
  is.
\<close>

definition do_shutdown :: "env \<Rightarrow> event list" where
  "do_shutdown e = async_shutdown # (if shutdown_ec e then [socket_close] else [socket_close])"

definition send_response :: "env \<Rightarrow> message \<Rightarrow> event list" where
  "send_response e msg =
     async_write msg #
       (if write_ec e then do_shutdown e
        else if \<not> write_complete e then do_shutdown e
        else do_shutdown e)"

text \<open>The two nested loops of \<open>handle_list_ips\<close>, with their stream and flags.\<close>

fun list_audio_ids :: "filesystem \<Rightarrow> string list \<Rightarrow> string \<Rightarrow> bool \<Rightarrow> string \<times> bool" where
  "list_audio_ids fs [] response_stream audio_found = (response_stream, audio_found)"
| "list_audio_ids fs (audio_entry # audio_entries) response_stream audio_found =
     (if fs_is_directory fs audio_entry then
        list_audio_ids fs audio_entries
          (response_stream @ ''  - '' @ path_filename audio_entry @ [CHR 0x0A]) True
      else list_audio_ids fs audio_entries response_stream audio_found)"

fun list_ip_ids :: "filesystem \<Rightarrow> string list \<Rightarrow> string \<Rightarrow> bool \<Rightarrow> string \<times> bool" where
  "list_ip_ids fs [] response_stream entries_found = (response_stream, entries_found)"
| "list_ip_ids fs (ip_entry # ip_entries) response_stream entries_found =
     (if fs_is_directory fs ip_entry then
        (let ip_id = path_filename ip_entry in
         case list_audio_ids fs (fs_directory_iterator fs ip_entry)
                (response_stream @ ip_id @ '':'' @ [CHR 0x0A]) False of
           (response_stream', audio_found) \<Rightarrow>
             list_ip_ids fs ip_entries
               (if \<not> audio_found
                then response_stream' @ ''  (No audio IDs found)'' @ [CHR 0x0A]
                else response_stream')
               True)
      else list_ip_ids fs ip_entries response_stream entries_found)"

definition handle_list_ips :: "env \<Rightarrow> filesystem \<Rightarrow> event list" where
  "handle_list_ips e fs =
     (let storage_path = SERVER_STORAGE_DIR in
      if \<not> fs_exists fs storage_path \<or> \<not> fs_is_directory fs storage_path
      then send_response e SERVER_ERROR_500
      else
        (case list_ip_ids fs (fs_directory_iterator fs storage_path) [] False of
           (response_stream, entries_found) \<Rightarrow>
             if \<not> entries_found then send_response e SERVER_ERROR_404
             else
               send_response e
                 (Text (''HTTP/1.1 200 OK'' @ CRLF @ ''Content-Type: text/plain'' @ CRLF @ CRLF
                        @ response_stream))))"

text \<open>
  The text \<open>process_request\<close> hands to the metadata parser for \<^verbatim>\<open>/toml/upload\<close>: the
  body after the top marker when it is found, cut before the run of 26 dashes when that is
  found.
\<close>

definition toml_body :: "env \<Rightarrow> string \<Rightarrow> string" where
  "toml_body e request_body =
     (let body1 = (case string_find request_body (NETWORK_TEXT_DELIM e) of
                     Some pos \<Rightarrow> substr_from request_body (pos + length (NETWORK_TEXT_DELIM e))
                   | None \<Rightarrow> request_body);
          bottom_delimiter = ''--------------------------''
      in
        case string_find body1 bottom_delimiter of
          Some bottom_pos \<Rightarrow> substr_to body1 bottom_pos
        | None \<Rightarrow> body1)"

text \<open>
  \<open>handle_upload\<close>. An exception of \<open>extract_and_validate\<close> leaves the handler before
  a response is written and before the \<^verbatim>\<open>fs::remove(gzip_path)\<close> at its end.
\<close>

definition handle_upload ::
  "env \<Rightarrow> string \<Rightarrow> request \<Rightarrow> filesystem \<Rightarrow> event list \<times> filesystem" where
  "handle_upload e ip_id request fs =
     (let audio_id = uuid e;
          gzip_path = SERVER_TEMP_STORAGE_DIR @ ''/'' @ audio_id @ COMPRESSED_ARCHIVE_EXT;
          fs1 = fs_create_directories fs SERVER_TEMP_STORAGE_DIR
      in
        if \<not> ofs_open_ok e then (send_response e SERVER_ERROR_500, fs1)
        else if \<not> ofs_write_ok e then
          (send_response e SERVER_ERROR_500,
           ofstream_write fs1 gzip_path (take (ofs_written e) (body request)))
        else
          (let fs2 = ofstream_write fs1 gzip_path (body request) in
           if \<not> fs_exists fs2 gzip_path \<or> fs_file_size fs2 gzip_path = 0 then
             (send_response e
                (Text (''HTTP/1.1 400 Bad Request'' @ CRLF @ CRLF @ ''GZIP upload failed'')),
              fs2)
           else
             (case extract_and_validate e gzip_path audio_id ip_id fs2 of
                (Inl failure, fs3) \<Rightarrow> ([uncaught failure], fs3)
              | (Inr True, fs3) \<Rightarrow>
                  (send_response e
                     (Text (''HTTP/1.1 200 OK'' @ CRLF @ ''Client-ID: '' @ audio_id @ CRLF @ CRLF)),
                   fs_remove fs3 gzip_path)
              | (Inr False, fs3) \<Rightarrow>
                  (send_response e SERVER_ERROR_400, fs_remove fs3 gzip_path))))"

text \<open>
  \<open>handle_download\<close>. The handler of \<^verbatim>\<open>http::async_write\<close> closes the socket, after an
  error as after a complete write.
\<close>

definition handle_download :: "env \<Rightarrow> request \<Rightarrow> filesystem \<Rightarrow> event list" where
  "handle_download e request fs =
     (let parts = getline_parts (target request) [] in
      if length parts < 4 \<or> parts ! 0 \<noteq> ''hls'' then send_response e SERVER_ERROR_400
      else
        (let ip_addr = parts ! 1;
             audio_id = parts ! 2;
             filename = parts ! 3;
             file_path = SERVER_STORAGE_DIR @ ''/'' @ ip_addr @ ''/'' @ audio_id @ ''/'' @ filename
         in
           if \<not> fs_exists fs file_path \<or> \<not> fs_is_regular_file fs file_path
           then send_response e SERVER_ERROR_404
           else
             (case ifstream fs file_path of
                None \<Rightarrow> send_response e SERVER_ERROR_500
              | Some file_content \<Rightarrow>
                  (let content_type =
                         (if ends_with filename PLAYLIST_EXT then ''application/vnd.apple.mpegurl''
                          else if ends_with filename TRANSPORT_STREAM_EXT then ''video/mp2t''
                          else CONTENT_TYPE_OCTET_STREAM)
                   in
                     [http_async_write
                        \<lparr>result = 200, server = ''Wavy Server'', content_type = content_type,
                         payload = file_content\<rparr>,
                      socket_close]))))"

definition process_request ::
  "env \<Rightarrow> string \<Rightarrow> request \<Rightarrow> filesystem \<Rightarrow> event list \<times> filesystem" where
  "process_request e ip_id request fs =
     (if http_method request = post then
        (if target request = ''/toml/upload'' then
           (if toml_path e (toml_body e (body request)) = []
            then (send_response e SERVER_ERROR_400, fs)
            else (send_response e (Text (''HTTP/1.1 200 OK'' @ CRLF @ CRLF @ ''TOML parsed'' @ CRLF)),
                  fs))
         else handle_upload e ip_id request fs)
      else if http_method request = get then
        (if target request = SERVER_PATH_HLS_CLIENTS then (handle_list_ips e fs, fs)
         else (handle_download e request fs, fs))
      else (send_response e SERVER_ERROR_405, fs))"

text \<open>
  \<^verbatim>\<open>http::async_read\<close> with the parser's \<^verbatim>\<open>body_limit\<close>: Beast reports
  \<^verbatim>\<open>http::error::body_limit\<close> when the body is larger than the limit, another error when
  the transfer breaks, and the request otherwise.
\<close>

fun async_read :: "nat \<Rightarrow> incoming \<Rightarrow> error_code \<times> request option" where
  "async_read limit Broken = (other_error, None)"
| "async_read limit (Request r) =
     (if limit < length (body r) then (body_limit, None) else (success, Some r))"

definition do_read :: "env \<Rightarrow> string \<Rightarrow> incoming \<Rightarrow> filesystem \<Rightarrow> event list \<times> filesystem" where
  "do_read e ip_id inc fs =
     (case async_read (WAVY_SERVER_AUDIO_SIZE_LIMIT * 1024 * 1024) inc of
        (success, Some request) \<Rightarrow> process_request e ip_id request fs
      | (ec, _) \<Rightarrow>
          if ec = body_limit then (send_response e SERVER_ERROR_413, fs)
          else ([], fs))"

definition do_handshake :: "env \<Rightarrow> string \<Rightarrow> incoming \<Rightarrow> filesystem \<Rightarrow> event list \<times> filesystem" where
  "do_handshake e ip_id inc fs = (if handshake_ec e then ([], fs) else do_read e ip_id inc fs)"

definition start :: "env \<Rightarrow> string \<Rightarrow> incoming \<Rightarrow> filesystem \<Rightarrow> event list \<times> filesystem" where
  "start e ip_id inc fs = do_handshake e ip_id inc fs"

text \<open>The status of the response a session writes, if it writes one.\<close>

fun response_status :: "event list \<Rightarrow> nat option" where
  "response_status [] = None"
| "response_status (async_write msg # evs) = Some (status_code msg)"
| "response_status (http_async_write r # evs) = Some (result r)"
| "response_status (ev # evs) = response_status evs"

subsection \<open>Reference definitions\<close>

text \<open>
  The spec's words for the segment-fetch route, section 4.5.4: split the path on
  \<^verbatim>\<open>'/'\<close> and keep the non-empty components.
\<close>

definition components :: "string \<Rightarrow> string list" where
  "components s = filter (\<lambda>t. t \<noteq> []) (split_slash s [])"

text \<open>
  The spec's words for the listing, section 4.5.3: for each owner directory the owner
  string, followed by its asset-ids, one per line, two-space indent, \<^verbatim>\<open>"- "\<close> prefix.
  The line for an owner without asset directories is the source's.
\<close>

definition subdirectories :: "filesystem \<Rightarrow> string \<Rightarrow> string list" where
  "subdirectories fs dir = filter (fs_is_directory fs) (fs_directory_iterator fs dir)"

definition owner_block :: "filesystem \<Rightarrow> string \<Rightarrow> string" where
  "owner_block fs owner =
     path_filename owner @ '':'' @ [CHR 0x0A] @
       (if subdirectories fs owner = [] then ''  (No audio IDs found)'' @ [CHR 0x0A]
        else concat (map (\<lambda>a. ''  - '' @ path_filename a @ [CHR 0x0A]) (subdirectories fs owner)))"

definition listing_text :: "filesystem \<Rightarrow> string" where
  "listing_text fs = concat (map (owner_block fs) (subdirectories fs SERVER_STORAGE_DIR))"

subsection \<open>Example inputs\<close>

text \<open>
  A concrete environment: the UUID of the header comment of the source; an archive reader
  that knows five archives (one transport-stream segment starting with byte 0; one
  compressed segment; one fragmented-MP4 segment without its boxes; one segment under a
  sub-directory; one segment whose name starts with \<^verbatim>\<open>./\<close>); a decompressor that knows
  one block.
\<close>

definition demo_uuid :: string where
  "demo_uuid = ''1435f431-a69a-4027-8661-44c31cd11ef6''"

definition demo_entry :: "string \<Rightarrow> string \<Rightarrow> tar_entry" where
  "demo_entry name bytes =
     \<lparr>pathname = name, entry_filetype = AE_IFREG, entry_data = bytes, header_ok = True,
      perm_read = True, perm_write = True\<rparr>"

definition demo_archive_read :: "string \<Rightarrow> tar_entry list option" where
  "demo_archive_read bytes =
     (if bytes = ''archive-1'' then Some [demo_entry ''seg_0.ts'' [CHR 0x00]]
      else if bytes = ''archive-2'' then Some [demo_entry ''seg_0.ts.zst'' ''block-1'']
      else if bytes = ''archive-3'' then Some [demo_entry ''seg_0.m4s'' ''not an mp4 segment'']
      else if bytes = ''archive-4'' then Some [demo_entry ''sub/seg_0.ts'' [CHR 0x47]]
      else if bytes = ''archive-5'' then Some [demo_entry ''./seg_0.ts'' [CHR 0x47]]
      else None)"

definition demo_zstd :: "string \<Rightarrow> string option" where
  "demo_zstd bytes = (if bytes = ''block-1'' then Some [CHR 0x47, CHR 0x40, CHR 0x00] else None)"

definition demo_env :: env where
  "demo_env =
     \<lparr>uuid = demo_uuid, archive_read = demo_archive_read, zstd = demo_zstd,
      toml_path = (\<lambda>text. takeWhile (\<lambda>c. c \<noteq> CHR 0x0A) text),
      NETWORK_TEXT_DELIM = ''--boundary--'',
      ofs_open_ok = True, ofs_write_ok = True, ofs_written = 0,
      handshake_ec = False, write_ec = False, write_complete = True, shutdown_ec = False\<rparr>"

definition demo_ip :: string where
  "demo_ip = ''192.168.1.10''"

definition demo_request :: "verb \<Rightarrow> string \<Rightarrow> string \<Rightarrow> request" where
  "demo_request m t b = \<lparr>http_method = m, target = t, body = b\<rparr>"

section \<open>Lemmas on strings and validators\<close>

lemma string_find_None_iff: "string_find s pat = None \<longleftrightarrow> \<not> sublist pat s"
  by (induction s) (auto simp: sublist_Cons_right)

lemma string_find_Some_split:
  "string_find s pat = Some i \<Longrightarrow> i \<le> length s \<and> take (length pat) (drop i s) = pat"
proof (induction s arbitrary: i)
  case Nil
  then show ?case by (simp split: if_splits)
next
  case (Cons c cs)
  show ?case
  proof (cases "prefix pat (c # cs)")
    case True
    with Cons.prems have "i = 0" by simp
    with True show ?thesis by (auto simp: prefix_def)
  next
    case False
    with Cons.prems obtain j where "string_find cs pat = Some j" "i = Suc j" by auto
    with Cons.IH show ?thesis by simp
  qed
qed



lemma toml_prefix:
  assumes "\<not> sublist (NETWORK_TEXT_DELIM e) b"
  shows "prefix (toml_body e b) b"
proof -
  from assms have "string_find b (NETWORK_TEXT_DELIM e) = None" by (simp add: string_find_None_iff)
  then show ?thesis
    by (auto simp: toml_body_def Let_def substr_to_def take_is_prefix split: option.splits)
qed

lemma find_last_of_append:
  "ch \<notin> set ys \<Longrightarrow> find_last_of (xs @ ch # ys) ch = Some (length xs)"
proof (induction xs)
  case Nil
  have "find_last_of ys ch = None" using Nil by (induction ys) auto
  then show ?case by simp
next
  case (Cons x xs)
  then show ?case by simp
qed

lemma find_last_of_None: "find_last_of s ch = None \<longleftrightarrow> ch \<notin> set s"
  by (induction s) (auto split: option.splits)

lemma find_last_of_Some:
  "find_last_of s ch = Some i \<Longrightarrow> i < length s \<and> s ! i = ch \<and> ch \<notin> set (drop (Suc i) s)"
proof (induction s arbitrary: i)
  case Nil
  then show ?case by simp
next
  case (Cons c cs)
  show ?case
  proof (cases "find_last_of cs ch")
    case None
    with Cons.prems have "i = 0" "c = ch" by (auto split: if_splits)
    with None show ?thesis by (simp add: find_last_of_None)
  next
    case (Some j)
    with Cons.prems have "i = Suc j" by simp
    with Cons.IH [OF Some] show ?thesis by simp
  qed
qed

lemma path_filename_entry:
  "CHR ''/'' \<notin> set name \<Longrightarrow> path_filename (dir @ CHR ''/'' # name) = name"
  by (simp add: path_filename_def find_last_of_append)




section \<open>Lemmas on paths\<close>

lemma split_slash_no_slash: "CHR ''/'' \<notin> set s \<Longrightarrow> split_slash s cur = [cur @ s]"
  by (induction s arbitrary: cur) auto

lemma split_slash_first:
  "CHR ''/'' \<in> set s \<Longrightarrow>
   split_slash s cur =
     (cur @ takeWhile (\<lambda>c. c \<noteq> CHR ''/'') s)
       # split_slash (drop (Suc (length (takeWhile (\<lambda>c. c \<noteq> CHR ''/'') s))) s) []"
  by (induction s arbitrary: cur) auto

lemma split_slash_append:
  "split_slash (a @ CHR ''/'' # b) cur = split_slash a cur @ split_slash b []"
  by (induction a arbitrary: cur) auto

lemma split_slash_pieces:
  "c \<in> set (split_slash s cur) \<Longrightarrow> CHR ''/'' \<notin> set cur \<Longrightarrow> CHR ''/'' \<notin> set c"
proof (induction s arbitrary: cur)
  case Nil
  then show ?case by simp
next
  case (Cons x xs)
  show ?case
  proof (cases "x = CHR ''/''")
    case True
    with Cons.prems have "c = cur \<or> c \<in> set (split_slash xs [])" by simp
    then show ?thesis using Cons.prems(2) Cons.IH [of "[]"] by auto
  next
    case False
    with Cons.prems have "c \<in> set (split_slash xs (cur @ [x]))" by simp
    then show ?thesis using Cons.IH [of "cur @ [x]"] Cons.prems(2) False by auto
  qed
qed

lemma path_components_append:
  "path_components (a @ CHR ''/'' # b) = path_components a @ path_components b"
  by (simp add: path_components_def split_slash_append)

lemma path_components_slash: "path_components (CHR ''/'' # b) = path_components b"
  by (simp add: path_components_def)

lemma path_components_clean:
  "c \<in> set (path_components p) \<Longrightarrow> c \<noteq> [] \<and> c \<noteq> ''.'' \<and> CHR ''/'' \<notin> set c"
  using split_slash_pieces [of c p "[]"] by (auto simp: path_components_def)

lemma path_components_name:
  "name \<noteq> [] \<Longrightarrow> name \<noteq> ''.'' \<Longrightarrow> CHR ''/'' \<notin> set name \<Longrightarrow> path_components name = [name]"
  by (simp add: path_components_def split_slash_no_slash)

lemma join_path_append: "join_path (xs @ ys) = join_path xs @ join_path ys"
  by (simp add: join_path_def)

lemma join_path_Cons: "join_path (c # cs) = CHR ''/'' # c @ join_path cs"
  by (simp add: join_path_def)

lemma path_components_join:
  "\<forall>c \<in> set cs. c \<noteq> [] \<and> c \<noteq> ''.'' \<and> CHR ''/'' \<notin> set c \<Longrightarrow> path_components (join_path cs) = cs"
proof (induction cs)
  case Nil
  then show ?case by (simp add: join_path_def path_components_def)
next
  case (Cons c cs)
  then have c: "path_components c = [c]" by (simp add: path_components_name)
  have "path_components (c @ join_path cs) = c # cs"
  proof (cases cs)
    case Nil
    then show ?thesis using c by (simp add: join_path_def)
  next
    case (Cons d ds)
    then have "join_path cs = CHR ''/'' # d @ join_path ds" by (simp add: join_path_Cons)
    moreover have "path_components (d @ join_path ds) = cs"
      using Cons.IH Cons.prems
      unfolding \<open>join_path cs = CHR ''/'' # d @ join_path ds\<close> path_components_slash by simp
    ultimately show ?thesis using c by (simp add: path_components_append)
  qed
  then show ?case by (simp add: join_path_Cons path_components_slash)
qed

lemma canonical_append: "canonical (a @ CHR ''/'' # b) = canonical a @ canonical b"
  by (simp add: canonical_def path_components_append join_path_append)

lemma path_components_canonical: "path_components (canonical p) = path_components p"
  unfolding canonical_def using path_components_clean [of _ p] by (intro path_components_join) blast

lemma canonical_idem: "canonical (canonical p) = canonical p"
  by (simp add: canonical_def path_components_canonical [unfolded canonical_def])

lemma canonical_name:
  "name \<noteq> [] \<Longrightarrow> name \<noteq> ''.'' \<Longrightarrow> CHR ''/'' \<notin> set name \<Longrightarrow> canonical name = CHR ''/'' # name"
  by (simp add: canonical_def path_components_name join_path_def)

lemma canonical_entry:
  "name \<noteq> [] \<Longrightarrow> name \<noteq> ''.'' \<Longrightarrow> CHR ''/'' \<notin> set name \<Longrightarrow>
   canonical (canonical dir @ CHR ''/'' # name) = canonical dir @ CHR ''/'' # name"
  by (simp add: canonical_append canonical_idem canonical_name)

lemma canonical_temp_root: "canonical SERVER_TEMP_STORAGE_DIR = ''/tmp/hls_temp''"
  by (simp add: canonical_def path_components_def join_path_def SERVER_TEMP_STORAGE_DIR_def)

lemma canonical_storage_root: "canonical SERVER_STORAGE_DIR = ''/tmp/hls_storage''"
  by (simp add: canonical_def path_components_def join_path_def SERVER_STORAGE_DIR_def)

lemma components_temp_root: "path_components SERVER_TEMP_STORAGE_DIR = [''tmp'', ''hls_temp'']"
  by (simp add: path_components_def SERVER_TEMP_STORAGE_DIR_def)

lemma components_storage_root: "path_components SERVER_STORAGE_DIR = [''tmp'', ''hls_storage'']"
  by (simp add: path_components_def SERVER_STORAGE_DIR_def)

lemma last_directory: "path_components p \<noteq> [] \<Longrightarrow> canonical p \<in> set (directories p)"
proof -
  assume "path_components p \<noteq> []"
  then have "length (path_components p) \<in> set [1..<Suc (length (path_components p))]"
    by (cases "path_components p") auto
  then have "join_path (take (length (path_components p)) (path_components p)) \<in> set (directories p)"
    unfolding directories_def set_map by (intro image_eqI [where x = "length (path_components p)"]) auto
  then show ?thesis by (simp add: canonical_def)
qed

lemma directories_canonical: "d \<in> set (directories p) \<Longrightarrow> canonical d = d"
proof -
  assume "d \<in> set (directories p)"
  then obtain i where d: "d = join_path (take i (path_components p))"
    by (auto simp: directories_def)
  have "\<forall>c \<in> set (take i (path_components p)). c \<noteq> [] \<and> c \<noteq> ''.'' \<and> CHR ''/'' \<notin> set c"
    using path_components_clean [of _ p] in_set_takeD by fast
  then show ?thesis unfolding d canonical_def by (simp add: path_components_join)
qed

section \<open>Lemmas on the file system\<close>

lemma fs_node_remove:
  "fs_node (fs_remove fs p) q = (if canonical q = canonical p then None else fs_node fs q)"
  by (simp add: fs_node_def fs_remove_def delete_conv')

lemma fs_node_rename:
  "fs_node (fs_rename fs old new) q =
     (case fs_node fs old of
        None \<Rightarrow> fs_node fs q
      | Some n \<Rightarrow>
          if canonical q = canonical new then Some n
          else if canonical q = canonical old then None else fs_node fs q)"
  by (simp add: fs_node_def fs_rename_def update_conv' delete_conv' split: option.splits)

lemma fs_node_ofstream_write:
  "fs_node (ofstream_write fs p bytes) q =
     (if canonical q = canonical p
      then Some (File (case fs_node fs p of Some (File r b) \<Rightarrow> r | _ \<Rightarrow> True) bytes)
      else fs_node fs q)"
  by (simp add: fs_node_def ofstream_write_def update_conv')

lemma map_of_mkdir:
  "map_of (mkdir fs d) q = (if q = d \<and> map_of fs d = None then Some Dir else map_of fs q)"
  by (auto simp: mkdir_def update_conv')

lemma map_of_foldl_mkdir:
  "map_of (foldl mkdir fs ds) q = (if q \<in> set ds \<and> map_of fs q = None then Some Dir else map_of fs q)"
  by (induction ds arbitrary: fs) (auto simp: map_of_mkdir)

lemma fs_node_create_directories:
  "fs_node (fs_create_directories fs p) q =
     (if canonical q \<in> set (directories p) \<and> fs_node fs q = None then Some Dir else fs_node fs q)"
  by (simp add: fs_node_def fs_create_directories_def map_of_foldl_mkdir)

lemma create_directories_makes:
  "path_components p \<noteq> [] \<Longrightarrow> fs_node fs p = None \<Longrightarrow>
   fs_node (fs_create_directories fs p) p = Some Dir"
  by (simp add: fs_node_create_directories last_directory)

lemma is_entry_of_D:
  "is_entry_of dir p \<Longrightarrow>
   \<exists>name. p = dir @ CHR ''/'' # name \<and> name \<noteq> [] \<and> CHR ''/'' \<notin> set name \<and>
          name \<noteq> ''.'' \<and> name \<noteq> ''..''"
  by (auto simp: is_entry_of_def prefix_def)

lemma set_fs_directory_iterator:
  "set (fs_directory_iterator fs dir) = {p. is_entry_of (canonical dir) p \<and> map_of fs p \<noteq> None}"
  by (auto simp: fs_directory_iterator_def map_of_eq_None_iff image_iff)

lemma distinct_fs_directory_iterator: "distinct (fs_directory_iterator fs dir)"
  by (simp add: fs_directory_iterator_def)

lemma listed_entry:
  assumes "f \<in> set (fs_directory_iterator fs dir)"
  shows "\<exists>name. f = canonical dir @ CHR ''/'' # name \<and> name \<noteq> [] \<and> CHR ''/'' \<notin> set name \<and>
           name \<noteq> ''.'' \<and> path_filename f = name \<and> canonical f = f \<and> fs_node fs f \<noteq> None"
proof -
  from assms obtain name where
    n: "f = canonical dir @ CHR ''/'' # name" "name \<noteq> []" "CHR ''/'' \<notin> set name" "name \<noteq> ''.''"
    and there: "map_of fs f \<noteq> None"
    by (auto simp: set_fs_directory_iterator dest!: is_entry_of_D)
  have c: "canonical f = f" unfolding n(1) using n(2) n(4) n(3) by (rule canonical_entry)
  have "path_filename f = name" unfolding n(1) using n(3) by (rule path_filename_entry)
  moreover have "fs_node fs f \<noteq> None" using there c by (simp add: fs_node_def)
  ultimately show ?thesis using n c by blast
qed

lemma ifstream_regular: "ifstream fs p = Some b \<Longrightarrow> fs_is_regular_file fs p"
  by (auto simp: ifstream_def fs_is_regular_file_def split: option.splits node.splits if_splits)

lemma regular_exists: "fs_is_regular_file fs p \<Longrightarrow> fs_exists fs p"
  by (auto simp: fs_exists_def fs_is_regular_file_def split: option.splits)

lemma regular_not_directory: "fs_is_regular_file fs p \<Longrightarrow> \<not> fs_is_directory fs p"
  by (auto simp: fs_is_directory_def fs_is_regular_file_def)

lemma directory_exists: "fs_is_directory fs p \<Longrightarrow> fs_exists fs p"
  by (simp add: fs_is_directory_def fs_exists_def)

section \<open>Lemmas on the staging sweep\<close>

lemma regular_cong:
  "fs_node fs f = fs_node fs' f \<Longrightarrow> fs_is_regular_file fs f = fs_is_regular_file fs' f"
  by (simp add: fs_is_regular_file_def)

lemma reaches_rename_iff:
  "reaches_rename fs f \<longleftrightarrow>
     \<not> fs_is_directory fs f \<and>
     (if ends_with (path_filename f) PLAYLIST_EXT
      then validate_m3u8_format
             (map (\<lambda>w. char_of (unat w))
                (case ifstream fs f of None \<Rightarrow> [] | Some bytes \<Rightarrow> (map of_char bytes :: 8 word list)))
      else if ends_with (path_filename f) TRANSPORT_STREAM_EXT
      then validate_ts_file (case ifstream fs f of None \<Rightarrow> [] | Some bytes \<Rightarrow> map of_char bytes)
      else ends_with (path_filename f) M4S_FILE_EXT \<or> ends_with (path_filename f) MP4_FILE_EXT)"
proof (cases "fs_is_directory fs f")
  case True
  then show ?thesis
    by (simp add: reaches_rename_def validate_staged_file_def Let_def read_data_def)
next
  case False
  then have r: "read_data fs f = Inr (case ifstream fs f of None \<Rightarrow> [] | Some bytes \<Rightarrow> map of_char bytes)"
    by (simp add: read_data_def split: option.splits)
  show ?thesis
    unfolding reaches_rename_def validate_staged_file_def Let_def r using False
    by (cases "ends_with (path_filename f) PLAYLIST_EXT";
        cases "ends_with (path_filename f) TRANSPORT_STREAM_EXT";
        cases "ends_with (path_filename f) M4S_FILE_EXT") simp_all
qed

lemma reaches_rename_cong:
  "fs_node fs f = fs_node fs' f \<Longrightarrow> reaches_rename fs f = reaches_rename fs' f"
  unfolding reaches_rename_iff by (simp add: ifstream_def fs_is_directory_def)

lemma read_data_regular:
  "fs_is_regular_file fs f \<Longrightarrow>
   read_data fs f = Inr (case ifstream fs f of None \<Rightarrow> [] | Some bytes \<Rightarrow> map of_char bytes)"
  by (auto simp: read_data_def regular_not_directory split: option.splits)

lemma read_data_directory: "read_data fs f = Inl failure \<longleftrightarrow> fs_is_directory fs f"
  by (cases failure) (auto simp: read_data_def split: option.splits)

lemma staged_cases:
  "validate_staged_file fs f =
     (if fs_is_directory fs f then Inl ios_base_failure
      else Inr (reaches_rename fs f, if reaches_rename fs f then fs else fs_remove fs f))"
  by (simp add: validate_staged_file_def reaches_rename_def read_data_def Let_def
        split: option.splits)



lemma validate_files_Cons:
  "validate_files sp (f # files) c fs =
     (if fs_is_directory fs f then (Inl ios_base_failure, fs)
      else if reaches_rename fs f
      then validate_files sp files (c + 1) (fs_rename fs f (sp @ CHR ''/'' # path_filename f))
      else validate_files sp files c (fs_remove fs f))"
  by (simp add: staged_cases)

lemma sweep_step_frame:
  assumes "canonical p \<noteq> canonical g" and "canonical p \<noteq> canonical t"
  shows "fs_node (fs_rename fs g t) p = fs_node fs p"
    and "fs_node (fs_remove fs g) p = fs_node fs p"
  using assms by (auto simp: fs_node_remove fs_node_rename split: option.splits)

lemma sweep_frame:
  "\<forall>f \<in> set files. canonical p \<noteq> canonical f \<and>
                    canonical p \<noteq> canonical (sp @ CHR ''/'' # path_filename f) \<Longrightarrow>
   fs_node (snd (validate_files sp files c fs)) p = fs_node fs p"
proof (induction files arbitrary: c fs)
  case Nil
  then show ?case by simp
next
  case (Cons f files)
  have rest: "\<forall>g \<in> set files. canonical p \<noteq> canonical g \<and>
                canonical p \<noteq> canonical (sp @ CHR ''/'' # path_filename g)"
    using Cons.prems by simp
  have here: "canonical p \<noteq> canonical f" "canonical p \<noteq> canonical (sp @ CHR ''/'' # path_filename f)"
    using Cons.prems by simp_all
  show ?case
    by (simp only: validate_files_Cons)
       (simp add: Cons.IH [OF rest] sweep_step_frame [OF here])
qed

text \<open>
  The entries the sweep goes through, as the directory iterator lists them: each once,
  each a place of the store, and none of them a place a file is promoted to.
\<close>

lemma sweep_step_rest:
  assumes d: "distinct (f # files)"
    and c: "\<forall>a \<in> set (f # files). canonical a = a"
    and apart: "\<forall>a \<in> set (f # files). \<forall>g \<in> set (f # files).
                  canonical (sp @ CHR ''/'' # path_filename g) \<noteq> a"
    and g: "g \<in> set files"
  shows "fs_node (fs_rename fs f (sp @ CHR ''/'' # path_filename f)) g = fs_node fs g"
    and "fs_node (fs_remove fs f) g = fs_node fs g"
proof -
  have "canonical g \<noteq> canonical f" using d c g by auto
  moreover have "canonical g \<noteq> canonical (sp @ CHR ''/'' # path_filename f)"
    using apart c g by (metis list.set_intros(1) list.set_intros(2))
  ultimately show "fs_node (fs_rename fs f (sp @ CHR ''/'' # path_filename f)) g = fs_node fs g"
    and "fs_node (fs_remove fs f) g = fs_node fs g"
    by (rule sweep_step_frame)+
qed

lemma sweep_count:
  "distinct files \<Longrightarrow> \<forall>a \<in> set files. canonical a = a \<Longrightarrow>
   \<forall>a \<in> set files. \<forall>g \<in> set files. canonical (sp @ CHR ''/'' # path_filename g) \<noteq> a \<Longrightarrow>
   \<forall>a \<in> set files. fs_is_regular_file fs a \<Longrightarrow>
   fst (validate_files sp files c fs) = Inr (c + length (filter (reaches_rename fs) files))"
proof (induction files arbitrary: c fs)
  case Nil
  then show ?case by simp
next
  case (Cons f files)
  let ?t = "sp @ CHR ''/'' # path_filename f"
  have d: "distinct files" and c: "\<forall>a \<in> set files. canonical a = a"
    and h: "\<forall>a \<in> set files. \<forall>g \<in> set files. canonical (sp @ CHR ''/'' # path_filename g) \<noteq> a"
    using Cons.prems by auto
  have nodir: "\<not> fs_is_directory fs f" using Cons.prems(4) by (simp add: regular_not_directory)
  have same: "fs_node st g = fs_node fs g"
    if "g \<in> set files" and "st = fs_rename fs f ?t \<or> st = fs_remove fs f" for st g
    using sweep_step_rest [OF Cons.prems(1-3) that(1), of fs] that(2) by auto
  have reg: "\<forall>a \<in> set files. fs_is_regular_file st a"
    if "st = fs_rename fs f ?t \<or> st = fs_remove fs f" for st
    using same [OF _ that] regular_cong [of st _ fs] Cons.prems(4) by auto
  have filt: "filter (reaches_rename st) files = filter (reaches_rename fs) files"
    if "st = fs_rename fs f ?t \<or> st = fs_remove fs f" for st
    using same [OF _ that] reaches_rename_cong [of st _ fs] by (intro filter_cong) auto
  show ?case
  proof (cases "reaches_rename fs f")
    case True
    then show ?thesis
      using Cons.IH [OF d c h reg, of "fs_rename fs f ?t" "c + 1"] filt [of "fs_rename fs f ?t"] nodir
      by (subst validate_files_Cons) simp
  next
    case False
    then show ?thesis
      using Cons.IH [OF d c h reg, of "fs_remove fs f" c] filt [of "fs_remove fs f"] nodir
      by (subst validate_files_Cons) simp
  qed
qed





text \<open>The staging directory of an asset and its asset directory, as places.\<close>

lemma canonical_staging:
  "canonical (SERVER_TEMP_STORAGE_DIR @ CHR ''/'' # audio_id) = ''/tmp/hls_temp'' @ canonical audio_id"
  by (simp add: canonical_append canonical_temp_root)

lemma canonical_asset:
  "canonical (SERVER_STORAGE_DIR @ CHR ''/'' # ip_id @ CHR ''/'' # audio_id)
     = ''/tmp/hls_storage'' @ canonical ip_id @ canonical audio_id"
  by (simp add: canonical_append canonical_storage_root)

lemma listed_canonical:
  "\<forall>a \<in> set (fs_directory_iterator fs dir). canonical a = a"
  using listed_entry by blast


lemma staging_apart:
  "\<forall>a \<in> set (fs_directory_iterator fs (SERVER_TEMP_STORAGE_DIR @ ''/'' @ audio_id)).
     \<forall>g \<in> set (fs_directory_iterator fs (SERVER_TEMP_STORAGE_DIR @ ''/'' @ audio_id)).
       canonical ((SERVER_STORAGE_DIR @ ''/'' @ ip_id @ ''/'' @ audio_id) @ CHR ''/'' # path_filename g) \<noteq> a"
proof (intro ballI)
  fix a g
  assume "a \<in> set (fs_directory_iterator fs (SERVER_TEMP_STORAGE_DIR @ ''/'' @ audio_id))"
  then obtain na where "a = canonical (SERVER_TEMP_STORAGE_DIR @ CHR ''/'' # audio_id) @ CHR ''/'' # na"
    using listed_entry [of a fs "SERVER_TEMP_STORAGE_DIR @ CHR ''/'' # audio_id"] by auto
  then show "canonical ((SERVER_STORAGE_DIR @ ''/'' @ ip_id @ ''/'' @ audio_id) @ CHR ''/'' # path_filename g) \<noteq> a"
    by (simp add: canonical_append canonical_temp_root canonical_storage_root)
qed

lemma sweep_keeps_directory:
  "fs_node (snd (validate_files (SERVER_STORAGE_DIR @ ''/'' @ ip_id @ ''/'' @ audio_id)
                   (fs_directory_iterator fs (SERVER_TEMP_STORAGE_DIR @ ''/'' @ audio_id)) c fs))
           (SERVER_STORAGE_DIR @ ''/'' @ ip_id @ ''/'' @ audio_id)
     = fs_node fs (SERVER_STORAGE_DIR @ ''/'' @ ip_id @ ''/'' @ audio_id)"
proof (rule sweep_frame, intro ballI conjI)
  fix f
  assume "f \<in> set (fs_directory_iterator fs (SERVER_TEMP_STORAGE_DIR @ ''/'' @ audio_id))"
  then obtain name where f: "f = canonical (SERVER_TEMP_STORAGE_DIR @ CHR ''/'' # audio_id) @ CHR ''/'' # name"
    and n: "path_filename f = name" "name \<noteq> []" "name \<noteq> ''.''" "CHR ''/'' \<notin> set name"
    and c: "canonical f = f"
    using listed_entry [of f fs "SERVER_TEMP_STORAGE_DIR @ CHR ''/'' # audio_id"] by auto
  show "canonical (SERVER_STORAGE_DIR @ ''/'' @ ip_id @ ''/'' @ audio_id) \<noteq> canonical f"
    unfolding c unfolding f by (simp add: canonical_append canonical_temp_root canonical_storage_root)
  show "canonical (SERVER_STORAGE_DIR @ ''/'' @ ip_id @ ''/'' @ audio_id)
          \<noteq> canonical ((SERVER_STORAGE_DIR @ ''/'' @ ip_id @ ''/'' @ audio_id) @ CHR ''/'' # path_filename f)"
    unfolding n(1) using n(2-4) by (simp add: canonical_append canonical_name)
qed

section \<open>Lemmas on the session\<close>

lemma send_response_events: "send_response e msg = [async_write msg, async_shutdown, socket_close]"
  by (simp add: send_response_def do_shutdown_def)

lemma status_200_toml: "status_code (Text (''HTTP/1.1 200 OK'' @ CRLF @ CRLF @ ''TOML parsed'' @ CRLF)) = 200"
  by (simp add: digits_to_nat_def)

lemma at_limit_is_read:  "length (body request) = WAVY_SERVER_AUDIO_SIZE_LIMIT * 1024 * 1024 \<Longrightarrow>
   async_read (WAVY_SERVER_AUDIO_SIZE_LIMIT * 1024 * 1024) (Request request) = (success, Some request)"
  by simp

section \<open>Lemmas on the segment-fetch route\<close>

lemma takeWhile_all: "CHR ''/'' \<notin> set s \<Longrightarrow> takeWhile (\<lambda>c. c \<noteq> CHR ''/'') s = s"
  by (induction s) auto

lemma getline_parts_components: "getline_parts s parts = parts @ components s"
proof (induction s parts rule: getline_parts.induct)
  case (1 iss parts)
  show ?case
  proof (cases "iss = []")
    case True
    then show ?thesis by (simp add: components_def)
  next
    case False
    let ?token = "takeWhile (\<lambda>c. c \<noteq> CHR ''/'') iss"
    let ?rest = "drop (Suc (length ?token)) iss"
    have step: "getline_parts iss parts =
                  (if ?token \<noteq> [] then parts @ [?token] else parts) @ components ?rest"
      using False "1.IH" [OF False refl refl]
      by (subst getline_parts.simps) (simp add: Let_def)
    have comp: "components iss = (if ?token \<noteq> [] then [?token] else []) @ components ?rest"
    proof (cases "CHR ''/'' \<in> set iss")
      case True
      then show ?thesis by (simp add: components_def split_slash_first)
    next
      case no: False
      then have tk: "?token = iss" by (rule takeWhile_all)
      have "components iss = [iss]"
        using no False by (simp add: components_def split_slash_no_slash)
      moreover have "components ?rest = []"
        unfolding tk by (simp add: components_def)
      ultimately show ?thesis using False unfolding tk by simp
    qed
    show ?thesis unfolding step comp by simp
  qed
qed

lemma download_400:
  "length (components (target request)) < 4 \<or> components (target request) ! 0 \<noteq> ''hls'' \<Longrightarrow>
   handle_download e request fs = send_response e SERVER_ERROR_400"
  unfolding handle_download_def getline_parts_components Let_def by simp

lemma download_404:
  "4 \<le> length (components (target request)) \<Longrightarrow> components (target request) ! 0 = ''hls'' \<Longrightarrow>
   \<not> fs_is_regular_file fs
       (SERVER_STORAGE_DIR @ ''/'' @ components (target request) ! 1 @ ''/'' @
        components (target request) ! 2 @ ''/'' @ components (target request) ! 3) \<Longrightarrow>
   handle_download e request fs = send_response e SERVER_ERROR_404"
  unfolding handle_download_def getline_parts_components Let_def by simp

lemma download_500:
  "4 \<le> length (components (target request)) \<Longrightarrow> components (target request) ! 0 = ''hls'' \<Longrightarrow>
   fs_is_regular_file fs
       (SERVER_STORAGE_DIR @ ''/'' @ components (target request) ! 1 @ ''/'' @
        components (target request) ! 2 @ ''/'' @ components (target request) ! 3) \<Longrightarrow>
   ifstream fs
       (SERVER_STORAGE_DIR @ ''/'' @ components (target request) ! 1 @ ''/'' @
        components (target request) ! 2 @ ''/'' @ components (target request) ! 3) = None \<Longrightarrow>
   handle_download e request fs = send_response e SERVER_ERROR_500"
  using regular_exists [of fs]
  unfolding handle_download_def getline_parts_components Let_def by simp

lemma download_200:
  "4 \<le> length (components (target request)) \<Longrightarrow> components (target request) ! 0 = ''hls'' \<Longrightarrow>
   ifstream fs
       (SERVER_STORAGE_DIR @ ''/'' @ components (target request) ! 1 @ ''/'' @
        components (target request) ! 2 @ ''/'' @ components (target request) ! 3) = Some bytes \<Longrightarrow>
   handle_download e request fs =
     [http_async_write
        \<lparr>result = 200, server = ''Wavy Server'',
         content_type =
           (if ends_with (components (target request) ! 3) PLAYLIST_EXT
            then ''application/vnd.apple.mpegurl''
            else if ends_with (components (target request) ! 3) TRANSPORT_STREAM_EXT
            then ''video/mp2t'' else CONTENT_TYPE_OCTET_STREAM),
         payload = bytes\<rparr>,
      socket_close]"
  using regular_exists [of fs] ifstream_regular [of fs]
  unfolding handle_download_def getline_parts_components Let_def by simp

section \<open>Lemmas on the listing route\<close>

lemma list_audio_ids_eq:
  "list_audio_ids fs entries out found =
     (out @ concat (map (\<lambda>a. ''  - '' @ path_filename a @ [CHR 0x0A]) (filter (fs_is_directory fs) entries)),
      found \<or> filter (fs_is_directory fs) entries \<noteq> [])"
  by (induction entries arbitrary: out found) auto

lemma list_ip_ids_eq:
  "list_ip_ids fs entries out found =
     (out @ concat (map (owner_block fs) (filter (fs_is_directory fs) entries)),
      found \<or> filter (fs_is_directory fs) entries \<noteq> [])"
proof (induction entries arbitrary: out found)
  case Nil
  then show ?case by simp
next
  case (Cons a entries)
  show ?case
  proof (cases "fs_is_directory fs a")
    case True
    then show ?thesis
      by (simp add: Cons.IH list_audio_ids_eq owner_block_def subdirectories_def Let_def)
  next
    case False
    then show ?thesis by (simp add: Cons.IH)
  qed
qed

lemma status_200_listing:
  "status_code (Text (''HTTP/1.1 200 OK'' @ CRLF @ ''Content-Type: text/plain'' @ CRLF @ CRLF @ out)) = 200"
  by (simp add: digits_to_nat_def)

section \<open>Lemmas on the extraction\<close>

text \<open>
  The test of \<open>extract_payload\<close> for the block-compression suffix compares the text after
  the last dot with \<open>ZSTD_FILE_EXT\<close>. That text holds no dot, and the whole name is
  taken only when it holds none; the constant starts with one.
\<close>

lemma suffix_test_never_holds:
  "substr_from s (case find_last_of s CHR ''.'' of None \<Rightarrow> 0 | Some i \<Rightarrow> i + 1) \<noteq> ZSTD_FILE_EXT"
proof (cases "find_last_of s CHR ''.''")
  case None
  then have "CHR ''.'' \<notin> set s" by (simp add: find_last_of_None)
  then have "s \<noteq> ''.zst''" by auto
  with None show ?thesis by (simp add: substr_from_def ZSTD_FILE_EXT_def)
next
  case (Some i)
  then have "CHR ''.'' \<notin> set (drop (Suc i) s)" by (simp add: find_last_of_Some)
  then have "drop (Suc i) s \<noteq> ''.zst''" by auto
  with Some show ?thesis by (simp add: substr_from_def ZSTD_FILE_EXT_def)
qed

lemma extract_entries_Cons:
  "extract_entries e extract_path (entry # entries) found fs =
     (if header_ok entry then
        (if \<not> perm_write entry \<or>
            fs_is_directory
              (archive_write_header fs (extract_path @ CHR ''/'' # pathname entry) entry)
              (extract_path @ CHR ''/'' # pathname entry)
         then extract_entries e extract_path entries found
                (archive_write_header fs (extract_path @ CHR ''/'' # pathname entry) entry)
         else extract_entries e extract_path entries True
                (ofstream_write
                   (archive_write_header fs (extract_path @ CHR ''/'' # pathname entry) entry)
                   (extract_path @ CHR ''/'' # pathname entry) (entry_data entry)))
      else extract_entries e extract_path entries found fs)"
  by (simp add: Let_def suffix_test_never_holds)

text \<open>
  So the extraction does not depend on the decompressor: it is the same under any two
  environments.
\<close>

lemma decompressor_never_consulted:
  "extract_entries e extract_path entries found fs = extract_entries e' extract_path entries found fs"
proof (induction entries arbitrary: found fs)
  case Nil
  then show ?case by simp
next
  case (Cons entry entries)
  show ?case
    unfolding extract_entries_Cons [of e] extract_entries_Cons [of e']
    by (simp add: Cons.IH [of _ _])
qed

text \<open>
  What the upload writes before the sweep lies under the temporary root, or is the
  directory above it.
\<close>

lemma directories_temp_root: "directories SERVER_TEMP_STORAGE_DIR = [''/tmp'', ''/tmp/hls_temp'']"
  by code_simp

lemma directories_temp_side:
  assumes "d \<in> set (directories (SERVER_TEMP_STORAGE_DIR @ CHR ''/'' # x))"
  shows "d = ''/tmp'' \<or> prefix ''/tmp/hls_temp'' d"
proof -
  have cs: "path_components (SERVER_TEMP_STORAGE_DIR @ CHR ''/'' # x)
              = ''tmp'' # ''hls_temp'' # path_components x"
    by (simp add: path_components_append components_temp_root)
  from assms have
    "d \<in> (\<lambda>i. join_path (take i (''tmp'' # ''hls_temp'' # path_components x)))
           ` {1..<Suc (length (''tmp'' # ''hls_temp'' # path_components x))}"
    unfolding directories_def cs set_map set_upt .
  then obtain i where
    "i \<in> {1..<Suc (length (''tmp'' # ''hls_temp'' # path_components x))}"
    and d: "d = join_path (take i (''tmp'' # ''hls_temp'' # path_components x))"
    by (rule imageE)
  then have i: "1 \<le> i" by simp
  show ?thesis
  proof (cases i)
    case 0
    with i show ?thesis by simp
  next
    case (Suc j)
    then show ?thesis unfolding d by (cases j) (simp_all add: join_path_def)
  qed
qed

lemma create_temp_root_frame:
  "canonical q \<noteq> ''/tmp'' \<Longrightarrow> \<not> prefix ''/tmp/hls_temp'' (canonical q) \<Longrightarrow>
   fs_node (fs_create_directories fs SERVER_TEMP_STORAGE_DIR) q = fs_node fs q"
  by (auto simp: fs_node_create_directories directories_temp_root)

lemma create_temp_side_frame:
  "canonical q \<noteq> ''/tmp'' \<Longrightarrow> \<not> prefix ''/tmp/hls_temp'' (canonical q) \<Longrightarrow>
   fs_node (fs_create_directories fs (SERVER_TEMP_STORAGE_DIR @ CHR ''/'' # x)) q = fs_node fs q"
  using directories_temp_side [of "canonical q" x] by (auto simp: fs_node_create_directories)

lemma canonical_temp_side:
  "prefix ''/tmp/hls_temp'' (canonical (SERVER_TEMP_STORAGE_DIR @ CHR ''/'' # x))"
  by (simp add: canonical_append canonical_temp_root)

lemma write_temp_side_frame:
  "\<not> prefix ''/tmp/hls_temp'' (canonical q) \<Longrightarrow>
   fs_node (ofstream_write fs (SERVER_TEMP_STORAGE_DIR @ CHR ''/'' # x) bytes) q = fs_node fs q"
  using canonical_temp_side [of x] by (auto simp: fs_node_ofstream_write)

lemma map_of_make_directory:
  "map_of (make_directory fs d) q = (if q = d then Some Dir else map_of fs q)"
  by (auto simp: make_directory_def update_conv')

lemma map_of_foldl_make_directory:
  "map_of (foldl make_directory fs ds) q = (if q \<in> set ds then Some Dir else map_of fs q)"
  by (induction ds arbitrary: fs) (auto simp: map_of_make_directory)

lemma header_temp_side_frame:
  assumes "canonical q \<noteq> ''/tmp''" and "\<not> prefix ''/tmp/hls_temp'' (canonical q)"
  shows "fs_node (archive_write_header fs (SERVER_TEMP_STORAGE_DIR @ CHR ''/'' # x) entry) q
           = fs_node fs q"
proof -
  let ?out = "SERVER_TEMP_STORAGE_DIR @ CHR ''/'' # x"
  have a: "canonical q \<notin> set (directories ?out)"
    using directories_temp_side [of "canonical q" x] assms by blast
  then have b: "canonical q \<notin> set (butlast (directories ?out))"
    using in_set_butlastD by fast
  have c: "canonical q \<noteq> canonical ?out"
    using canonical_temp_side [of x] assms(2) by auto
  show ?thesis
    using a b c
    by (cases "entry_filetype entry")
       (simp_all add: archive_write_header_def fs_node_def map_of_foldl_make_directory update_conv')
qed

lemma extract_entries_frame:
  "canonical q \<noteq> ''/tmp'' \<Longrightarrow> \<not> prefix ''/tmp/hls_temp'' (canonical q) \<Longrightarrow>
   fs_node (snd (extract_entries e (SERVER_TEMP_STORAGE_DIR @ CHR ''/'' # x) entries found fs)) q
     = fs_node fs q"
proof (induction entries arbitrary: found fs)
  case Nil
  then show ?case by simp
next
  case (Cons entry entries)
  let ?name = "x @ CHR ''/'' # pathname entry"
  have h: "fs_node (archive_write_header fs (SERVER_TEMP_STORAGE_DIR @ CHR ''/'' # ?name) entry) q
             = fs_node fs q"
    using Cons.prems by (rule header_temp_side_frame)
  have w: "fs_node (ofstream_write
                      (archive_write_header fs (SERVER_TEMP_STORAGE_DIR @ CHR ''/'' # ?name) entry)
                      (SERVER_TEMP_STORAGE_DIR @ CHR ''/'' # ?name) (entry_data entry)) q
             = fs_node fs q"
    using Cons.prems(2) h by (simp add: write_temp_side_frame)
  show ?case
    by (subst extract_entries_Cons) (simp add: Cons.IH [OF Cons.prems] h w)
qed

lemma extract_payload_frame:
  "canonical q \<noteq> ''/tmp'' \<Longrightarrow> \<not> prefix ''/tmp/hls_temp'' (canonical q) \<Longrightarrow>
   fs_node (snd (extract_payload e payload_path (SERVER_TEMP_STORAGE_DIR @ CHR ''/'' # x) fs)) q
     = fs_node fs q"
  by (auto simp: extract_payload_def extract_entries_frame split: option.splits)

lemma asset_not_temp_side:
  "canonical (SERVER_STORAGE_DIR @ CHR ''/'' # ip_id @ CHR ''/'' # audio_id) \<noteq> ''/tmp''"
  "\<not> prefix ''/tmp/hls_temp'' (canonical (SERVER_STORAGE_DIR @ CHR ''/'' # ip_id @ CHR ''/'' # audio_id))"
  by (simp_all add: canonical_asset)

lemma asset_components:
  "path_components (SERVER_STORAGE_DIR @ CHR ''/'' # ip_id @ CHR ''/'' # audio_id) \<noteq> []"
  by (simp add: path_components_append components_storage_root)

section \<open>Lemmas on the upload\<close>

lemma status_200_upload:
  "status_code (Text (''HTTP/1.1 200 OK'' @ CRLF @ ''Client-ID: '' @ audio_id @ CRLF @ CRLF)) = 200"
  by (simp add: digits_to_nat_def)

text \<open>
  \<open>handle_upload\<close> once the archive is staged, by the outcome of
  \<open>extract_and_validate\<close>.
\<close>

lemma staged_archive_thrown:
  assumes "ofs_open_ok e" and "ofs_write_ok e" and "body request \<noteq> []"
    and "extract_and_validate e
           (SERVER_TEMP_STORAGE_DIR @ CHR ''/'' # uuid e @ COMPRESSED_ARCHIVE_EXT) (uuid e) ip_id
           (ofstream_write (fs_create_directories fs SERVER_TEMP_STORAGE_DIR)
              (SERVER_TEMP_STORAGE_DIR @ CHR ''/'' # uuid e @ COMPRESSED_ARCHIVE_EXT) (body request))
         = (Inl failure, fs3)"
  shows "handle_upload e ip_id request fs = ([uncaught failure], fs3)"
  using assms
  by (simp add: handle_upload_def Let_def fs_exists_def fs_file_size_def fs_node_ofstream_write)

lemma staged_archive_valid:
  assumes "ofs_open_ok e" and "ofs_write_ok e" and "body request \<noteq> []"
    and "extract_and_validate e
           (SERVER_TEMP_STORAGE_DIR @ CHR ''/'' # uuid e @ COMPRESSED_ARCHIVE_EXT) (uuid e) ip_id
           (ofstream_write (fs_create_directories fs SERVER_TEMP_STORAGE_DIR)
              (SERVER_TEMP_STORAGE_DIR @ CHR ''/'' # uuid e @ COMPRESSED_ARCHIVE_EXT) (body request))
         = (Inr True, fs3)"
  shows "handle_upload e ip_id request fs =
           (send_response e
              (Text (''HTTP/1.1 200 OK'' @ CRLF @ ''Client-ID: '' @ uuid e @ CRLF @ CRLF)),
            fs_remove fs3 (SERVER_TEMP_STORAGE_DIR @ CHR ''/'' # uuid e @ COMPRESSED_ARCHIVE_EXT))"
  using assms
  by (simp add: handle_upload_def Let_def fs_exists_def fs_file_size_def fs_node_ofstream_write)

lemma staged_archive_invalid:
  assumes "ofs_open_ok e" and "ofs_write_ok e" and "body request \<noteq> []"
    and "extract_and_validate e
           (SERVER_TEMP_STORAGE_DIR @ CHR ''/'' # uuid e @ COMPRESSED_ARCHIVE_EXT) (uuid e) ip_id
           (ofstream_write (fs_create_directories fs SERVER_TEMP_STORAGE_DIR)
              (SERVER_TEMP_STORAGE_DIR @ CHR ''/'' # uuid e @ COMPRESSED_ARCHIVE_EXT) (body request))
         = (Inr False, fs3)"
  shows "handle_upload e ip_id request fs =
           (send_response e SERVER_ERROR_400,
            fs_remove fs3 (SERVER_TEMP_STORAGE_DIR @ CHR ''/'' # uuid e @ COMPRESSED_ARCHIVE_EXT))"
  using assms
  by (simp add: handle_upload_def Let_def fs_exists_def fs_file_size_def fs_node_ofstream_write)

lemma staged_archive_present:
  "fs_exists (ofstream_write fs p bytes) p"
  by (simp add: fs_exists_def fs_node_ofstream_write)

text \<open>\<open>extract_and_validate\<close> by the outcome of the extraction and of the sweep.\<close>

lemma validation_not_extracted:
  assumes "fs_exists fs gzip_path"
    and "extract_payload e gzip_path (SERVER_TEMP_STORAGE_DIR @ CHR ''/'' # audio_id)
           (fs_create_directories fs (SERVER_TEMP_STORAGE_DIR @ CHR ''/'' # audio_id))
         = (False, fsx)"
  shows "extract_and_validate e gzip_path audio_id ip_id fs = (Inr False, fsx)"
  using assms by (simp add: extract_and_validate_def Let_def)

lemma validation_swept:
  assumes "fs_exists fs gzip_path"
    and "extract_payload e gzip_path (SERVER_TEMP_STORAGE_DIR @ CHR ''/'' # audio_id)
           (fs_create_directories fs (SERVER_TEMP_STORAGE_DIR @ CHR ''/'' # audio_id))
         = (True, fsx)"
    and "validate_files (SERVER_STORAGE_DIR @ CHR ''/'' # ip_id @ CHR ''/'' # audio_id)
           (fs_directory_iterator
              (fs_create_directories fsx (SERVER_STORAGE_DIR @ CHR ''/'' # ip_id @ CHR ''/'' # audio_id))
              (SERVER_TEMP_STORAGE_DIR @ CHR ''/'' # audio_id))
           0
           (fs_create_directories fsx (SERVER_STORAGE_DIR @ CHR ''/'' # ip_id @ CHR ''/'' # audio_id))
         = (Inr count, fs4)"
  shows "extract_and_validate e gzip_path audio_id ip_id fs = (Inr (count \<noteq> 0), fs4)"
  using assms by (simp add: extract_and_validate_def Let_def)

lemma validation_thrown:
  assumes "fs_exists fs gzip_path"
    and "extract_payload e gzip_path (SERVER_TEMP_STORAGE_DIR @ CHR ''/'' # audio_id)
           (fs_create_directories fs (SERVER_TEMP_STORAGE_DIR @ CHR ''/'' # audio_id))
         = (True, fsx)"
    and "validate_files (SERVER_STORAGE_DIR @ CHR ''/'' # ip_id @ CHR ''/'' # audio_id)
           (fs_directory_iterator
              (fs_create_directories fsx (SERVER_STORAGE_DIR @ CHR ''/'' # ip_id @ CHR ''/'' # audio_id))
              (SERVER_TEMP_STORAGE_DIR @ CHR ''/'' # audio_id))
           0
           (fs_create_directories fsx (SERVER_STORAGE_DIR @ CHR ''/'' # ip_id @ CHR ''/'' # audio_id))
         = (Inl failure, fs4)"
  shows "extract_and_validate e gzip_path audio_id ip_id fs = (Inl failure, fs4)"
  using assms by (simp add: extract_and_validate_def Let_def)

lemma asset_untouched_before_sweep:
  "fs_node
     (snd (extract_payload e gzip_path (SERVER_TEMP_STORAGE_DIR @ CHR ''/'' # audio_id)
             (fs_create_directories
                (ofstream_write (fs_create_directories fs SERVER_TEMP_STORAGE_DIR)
                   (SERVER_TEMP_STORAGE_DIR @ CHR ''/'' # audio_id @ COMPRESSED_ARCHIVE_EXT) bytes)
                (SERVER_TEMP_STORAGE_DIR @ CHR ''/'' # audio_id))))
     (SERVER_STORAGE_DIR @ CHR ''/'' # ip_id @ CHR ''/'' # audio_id)
   = fs_node fs (SERVER_STORAGE_DIR @ CHR ''/'' # ip_id @ CHR ''/'' # audio_id)"
  using asset_not_temp_side [of ip_id audio_id]
  by (simp add: extract_payload_frame create_temp_side_frame write_temp_side_frame
        create_temp_root_frame)

lemma archive_is_not_asset:
  "canonical (SERVER_STORAGE_DIR @ CHR ''/'' # ip_id @ CHR ''/'' # audio_id)
     \<noteq> canonical (SERVER_TEMP_STORAGE_DIR @ CHR ''/'' # audio_id @ COMPRESSED_ARCHIVE_EXT)"
  using asset_not_temp_side(2) [of ip_id audio_id]
        canonical_temp_side [of "audio_id @ COMPRESSED_ARCHIVE_EXT"]
  by auto

lemma empty_body_keeps_archive:
  assumes "ofs_open_ok e" and "ofs_write_ok e" and "body request = []"
  shows "handle_upload e ip_id request fs =
           (send_response e
              (Text (''HTTP/1.1 400 Bad Request'' @ CRLF @ CRLF @ ''GZIP upload failed'')),
            ofstream_write (fs_create_directories fs SERVER_TEMP_STORAGE_DIR)
              (SERVER_TEMP_STORAGE_DIR @ ''/'' @ uuid e @ COMPRESSED_ARCHIVE_EXT) [])"
    and "fs_is_regular_file (snd (handle_upload e ip_id request fs))
           (SERVER_TEMP_STORAGE_DIR @ ''/'' @ uuid e @ COMPRESSED_ARCHIVE_EXT)"
  using assms
  by (simp_all add: handle_upload_def Let_def fs_exists_def fs_file_size_def
        fs_is_regular_file_def fs_node_ofstream_write)

lemma failed_write_keeps_archive:
  assumes "ofs_open_ok e" and "\<not> ofs_write_ok e"
  shows "fs_is_regular_file (snd (handle_upload e ip_id request fs))
           (SERVER_TEMP_STORAGE_DIR @ ''/'' @ uuid e @ COMPRESSED_ARCHIVE_EXT) \<and>
         response_status (fst (handle_upload e ip_id request fs)) = Some 500"
  using assms
  by (simp add: handle_upload_def Let_def fs_is_regular_file_def fs_node_ofstream_write
        send_response_events)

lemma download_skips_shutdown:
  assumes "4 \<le> length (components (target request))"
    and "components (target request) ! 0 = ''hls''"
    and "ifstream fs
           (SERVER_STORAGE_DIR @ ''/'' @ components (target request) ! 1 @ ''/'' @
            components (target request) ! 2 @ ''/'' @ components (target request) ! 3) = Some bytes"
  shows "async_shutdown \<notin> set (handle_download e request fs)"
  unfolding download_200 [OF assms] by simp

lemma send_response_shuts_down:
  "\<exists>before. send_response e msg = before @ [async_shutdown, socket_close]"
  by (simp add: send_response_events)

text \<open>
  The model on names that are not flat. An entry under a sub-directory makes the
  extractor create that directory in the staging directory; the sweep reads it, the
  exception leaves the handler, no response is written and the staged archive stays. An
  entry whose name starts with \<^verbatim>\<open>./\<close> is written into the staging directory itself, and
  the sweep promotes it.
\<close>

lemma nested_entry_ends_the_session:
  "handle_upload demo_env demo_ip (demo_request post ''/upload'' ''archive-4'') [] =
     ([uncaught ios_base_failure],
      [(''/tmp'', Dir), (''/tmp/hls_temp'', Dir),
       (''/tmp/hls_temp/1435f431-a69a-4027-8661-44c31cd11ef6.tar.gz'', File True ''archive-4''),
       (''/tmp/hls_temp/1435f431-a69a-4027-8661-44c31cd11ef6'', Dir),
       (''/tmp/hls_temp/1435f431-a69a-4027-8661-44c31cd11ef6/sub'', Dir),
       (''/tmp/hls_temp/1435f431-a69a-4027-8661-44c31cd11ef6/sub/seg_0.ts'', File True [CHR 0x47]),
       (''/tmp/hls_storage'', Dir), (''/tmp/hls_storage/192.168.1.10'', Dir),
       (''/tmp/hls_storage/192.168.1.10/1435f431-a69a-4027-8661-44c31cd11ef6'', Dir)])"
  by code_simp

lemma dotted_entry_is_promoted:
  "response_status (fst (handle_upload demo_env demo_ip (demo_request post ''/upload'' ''archive-5'') []))
     = Some 200 \<and>
   fs_node (snd (handle_upload demo_env demo_ip (demo_request post ''/upload'' ''archive-5'') []))
     (SERVER_STORAGE_DIR @ ''/'' @ demo_ip @ ''/'' @ demo_uuid @ ''/seg_0.ts'')
     = Some (File True [CHR 0x47])"
  by code_simp

section \<open>The claims\<close>

subsection \<open>C8: the transport-stream validator and the sweep\<close>



subsection \<open>C7: the fragmented-MP4 validator and the sweep\<close>



subsection \<open>C10: metadata upload without boundary markers\<close>

text \<open>
  Claim C10. For a POST to \<^verbatim>\<open>/toml/upload\<close> whose body does not contain the top
  boundary marker, the text handed to the metadata parser is the body from its start: a
  prefix of the body, and the whole body when the run of dashes is absent too. The
  response is 400 exactly when the parser's result on that text has an empty path, and
  200 otherwise.
\<close>

theorem toml_upload_without_boundaries:
  assumes "http_method request = post" and "target request = ''/toml/upload''"
    and "\<not> sublist (NETWORK_TEXT_DELIM e) (body request)"
  shows "prefix (toml_body e (body request)) (body request) \<and>
         (\<not> sublist ''--------------------------'' (body request) \<longrightarrow>
            toml_body e (body request) = body request) \<and>
         process_request e ip_id request fs =
           (send_response e
              (if toml_path e (toml_body e (body request)) = [] then SERVER_ERROR_400
               else Text (''HTTP/1.1 200 OK'' @ CRLF @ CRLF @ ''TOML parsed'' @ CRLF)), fs) \<and>
         response_status (fst (process_request e ip_id request fs)) =
           Some (if toml_path e (toml_body e (body request)) = [] then 400 else 200)"
proof -
  from assms(3) have top: "string_find (body request) (NETWORK_TEXT_DELIM e) = None"
    by (simp add: string_find_None_iff)
  have p: "prefix (toml_body e (body request)) (body request)"
    using assms(3) by (rule toml_prefix)
  have w: "\<not> sublist ''--------------------------'' (body request) \<longrightarrow>
            toml_body e (body request) = body request"
    using top by (simp add: toml_body_def Let_def string_find_None_iff [symmetric])
  have r: "process_request e ip_id request fs =
           (send_response e
              (if toml_path e (toml_body e (body request)) = [] then SERVER_ERROR_400
               else Text (''HTTP/1.1 200 OK'' @ CRLF @ CRLF @ ''TOML parsed'' @ CRLF)), fs)"
    using assms(1,2) by (simp add: process_request_def)
  have s: "response_status (fst (process_request e ip_id request fs)) =
           Some (if toml_path e (toml_body e (body request)) = [] then 400 else 200)"
    unfolding r using status_200_toml by (simp add: send_response_events)
  from p w r s show ?thesis by blast
qed

theorem toml_upload_without_boundaries_witness:
  "(let request = demo_request post ''/toml/upload'' ''path = song.flac''
    in http_method request = post \<and> target request = ''/toml/upload'' \<and>
       \<not> sublist (NETWORK_TEXT_DELIM demo_env) (body request) \<and>
       toml_body demo_env (body request) = body request \<and>
       response_status (fst (process_request demo_env demo_ip request [])) = Some 200)"
proof -
  let ?r = "demo_request post ''/toml/upload'' ''path = song.flac''"
  have h1: "http_method ?r = post" and h2: "target ?r = ''/toml/upload''"
    by (simp_all add: demo_request_def)
  have h3: "\<not> sublist (NETWORK_TEXT_DELIM demo_env) (body ?r)"
    unfolding string_find_None_iff [symmetric] by code_simp
  have h4: "\<not> sublist ''--------------------------'' (body ?r)"
    unfolding string_find_None_iff [symmetric] by code_simp
  have h5: "toml_path demo_env (body ?r) \<noteq> []"
    by (simp add: demo_env_def demo_request_def)
  note t = toml_upload_without_boundaries [OF h1 h2 h3, of demo_ip "[]"]
  from t h4 have b: "toml_body demo_env (body ?r) = body ?r" by blast
  from t have "response_status (fst (process_request demo_env demo_ip ?r [])) =
           Some (if toml_path demo_env (toml_body demo_env (body ?r)) = [] then 400 else 200)"
    by blast
  with b h5 have s: "response_status (fst (process_request demo_env demo_ip ?r [])) = Some 200"
    by simp
  from h1 h2 h3 b s show ?thesis unfolding Let_def by blast
qed

subsection \<open>C9: a body over the ceiling\<close>

text \<open>
  Claim C9. When the body of the request is strictly larger than the ceiling of
  \<open>WAVY_SERVER_AUDIO_SIZE_LIMIT\<close> MiB, the read ends with \<open>body_limit\<close>, the request is
  not dispatched, the session writes the 413 response and goes on to the TLS shutdown and
  the close, and the store is the one the session started with: no temporary file has
  been created.
\<close>

theorem oversized_upload:
  assumes "\<not> handshake_ec e"
    and "WAVY_SERVER_AUDIO_SIZE_LIMIT * 1024 * 1024 < length (body request)"
  shows "async_read (WAVY_SERVER_AUDIO_SIZE_LIMIT * 1024 * 1024) (Request request)
           = (body_limit, None) \<and>
         start e ip_id (Request request) fs
           = ([async_write SERVER_ERROR_413, async_shutdown, socket_close], fs) \<and>
         response_status (fst (start e ip_id (Request request) fs)) = Some 413"
  using assms
  by (simp add: start_def do_handshake_def do_read_def send_response_events)

theorem oversized_upload_witness:
  "(let request = demo_request post ''/upload'' (replicate 209715201 (CHR ''a''))
    in \<not> handshake_ec demo_env \<and>
       WAVY_SERVER_AUDIO_SIZE_LIMIT * 1024 * 1024 < length (body request) \<and>
       start demo_env demo_ip (Request request) []
         = ([async_write SERVER_ERROR_413, async_shutdown, socket_close], []))"
proof -
  let ?r = "demo_request post ''/upload'' (replicate 209715201 (CHR ''a''))"
  have h1: "\<not> handshake_ec demo_env" by (simp add: demo_env_def)
  have h2: "WAVY_SERVER_AUDIO_SIZE_LIMIT * 1024 * 1024 < length (body ?r)"
    by (simp add: WAVY_SERVER_AUDIO_SIZE_LIMIT_def demo_request_def)
  from oversized_upload [OF h1 h2, of demo_ip "[]"] h1 h2
  show ?thesis unfolding Let_def by blast
qed

subsection \<open>C1: the shape of a segment-fetch path\<close>

text \<open>
  Claim C1, as the code has it. \<open>handle_download\<close> answers 400 exactly when the path has
  fewer than four non-empty components or the first is not \<^verbatim>\<open>hls\<close>. Otherwise it
  resolves the path made of the storage root and the second, third and fourth component:
  404 exactly when that is not a regular file, 500 exactly when it is one that does not
  open, and otherwise 200 with the bytes of the file, after which the socket is closed.
\<close>

theorem segment_fetch_shape:
  "(let parts = components (target request);
        file_path = SERVER_STORAGE_DIR @ ''/'' @ parts ! 1 @ ''/'' @ parts ! 2 @ ''/'' @ parts ! 3;
        status = response_status (handle_download e request fs)
    in (status = Some 400 \<longleftrightarrow> length parts < 4 \<or> parts ! 0 \<noteq> ''hls'') \<and>
       (status = Some 404 \<longleftrightarrow>
          (4 \<le> length parts \<and> parts ! 0 = ''hls'') \<and> \<not> fs_is_regular_file fs file_path) \<and>
       (status = Some 500 \<longleftrightarrow>
          (4 \<le> length parts \<and> parts ! 0 = ''hls'') \<and> fs_is_regular_file fs file_path \<and>
          ifstream fs file_path = None) \<and>
       (\<forall>bytes. (4 \<le> length parts \<and> parts ! 0 = ''hls'') \<and> ifstream fs file_path = Some bytes \<longrightarrow>
          status = Some 200 \<and>
          (\<exists>ct. handle_download e request fs =
             [http_async_write
                \<lparr>result = 200, server = ''Wavy Server'', content_type = ct, payload = bytes\<rparr>,
              socket_close])))"
proof -
  let ?parts = "components (target request)"
  let ?path = "SERVER_STORAGE_DIR @ ''/'' @ ?parts ! 1 @ ''/'' @ ?parts ! 2 @ ''/'' @ ?parts ! 3"
  let ?status = "response_status (handle_download e request fs)"
  let ?shape = "4 \<le> length ?parts \<and> ?parts ! 0 = ''hls''"
  consider (bad) "length ?parts < 4 \<or> ?parts ! 0 \<noteq> ''hls''"
    | (missing) "?shape" "\<not> fs_is_regular_file fs ?path"
    | (closed) "?shape" "fs_is_regular_file fs ?path" "ifstream fs ?path = None"
    | (served) bytes where "?shape" "ifstream fs ?path = Some bytes"
    using not_less [of "length ?parts" 4] by (cases "ifstream fs ?path") blast+
  then have
    "(?status = Some 400 \<longleftrightarrow> length ?parts < 4 \<or> ?parts ! 0 \<noteq> ''hls'') \<and>
     (?status = Some 404 \<longleftrightarrow> ?shape \<and> \<not> fs_is_regular_file fs ?path) \<and>
     (?status = Some 500 \<longleftrightarrow> ?shape \<and> fs_is_regular_file fs ?path \<and> ifstream fs ?path = None) \<and>
     (\<forall>bytes. ?shape \<and> ifstream fs ?path = Some bytes \<longrightarrow>
        ?status = Some 200 \<and>
        (\<exists>ct. handle_download e request fs =
           [http_async_write
              \<lparr>result = 200, server = ''Wavy Server'', content_type = ct, payload = bytes\<rparr>,
            socket_close]))"
  proof cases
    case bad
    have "handle_download e request fs = send_response e SERVER_ERROR_400"
      using bad by (rule download_400)
    then have "?status = Some 400" by (simp add: send_response_events)
    with bad show ?thesis by auto
  next
    case missing
    have "handle_download e request fs = send_response e SERVER_ERROR_404"
      using missing by (intro download_404) auto
    then have "?status = Some 404" by (simp add: send_response_events)
    moreover have "ifstream fs ?path \<noteq> Some b" for b
      using missing(2) ifstream_regular by blast
    ultimately show ?thesis using missing by auto
  next
    case closed
    have "handle_download e request fs = send_response e SERVER_ERROR_500"
      using closed by (intro download_500) auto
    then have "?status = Some 500" by (simp add: send_response_events)
    with closed show ?thesis by auto
  next
    case served
    have d: "\<exists>ct. handle_download e request fs =
       [http_async_write
          \<lparr>result = 200, server = ''Wavy Server'', content_type = ct, payload = bytes\<rparr>,
        socket_close]"
      using download_200 [of request fs bytes e] served by blast
    then have s: "?status = Some 200" by auto
    have r: "fs_is_regular_file fs ?path" using served(2) by (rule ifstream_regular)
    from d s r served show ?thesis by auto
  qed
  then show ?thesis unfolding Let_def .
qed

theorem segment_fetch_shape_witness:
  "(let request = demo_request get ''/hls/192.168.1.10/a1/index.m3u8'' [];
        fs = [(''/tmp/hls_storage/192.168.1.10/a1/index.m3u8'', File True ''#EXTM3U'')]
    in components (target request) = [''hls'', ''192.168.1.10'', ''a1'', ''index.m3u8''] \<and>
       ifstream fs ''/tmp/hls_storage/192.168.1.10/a1/index.m3u8'' = Some ''#EXTM3U'' \<and>
       response_status (handle_download demo_env request fs) = Some 200)"
proof -
  let ?r = "demo_request get ''/hls/192.168.1.10/a1/index.m3u8'' []"
  let ?fs = "[(''/tmp/hls_storage/192.168.1.10/a1/index.m3u8'', File True ''#EXTM3U'')]"
  have c: "components (target ?r) = [''hls'', ''192.168.1.10'', ''a1'', ''index.m3u8'']"
    by code_simp
  have i: "ifstream ?fs ''/tmp/hls_storage/192.168.1.10/a1/index.m3u8'' = Some ''#EXTM3U''"
    by code_simp
  from segment_fetch_shape [of request demo_env fs for request fs, unfolded Let_def, of ?r ?fs]
  have "\<forall>bytes. 4 \<le> length (components (target ?r)) \<and> components (target ?r) ! 0 = ''hls'' \<and>
          ifstream ?fs (SERVER_STORAGE_DIR @ ''/'' @ components (target ?r) ! 1 @ ''/'' @
                        components (target ?r) ! 2 @ ''/'' @ components (target ?r) ! 3) = Some bytes
        \<longrightarrow> response_status (handle_download demo_env ?r ?fs) = Some 200"
    by blast
  then have "response_status (handle_download demo_env ?r ?fs) = Some 200"
    using i unfolding c by (simp add: SERVER_STORAGE_DIR_def)
  with c i show ?thesis unfolding Let_def by blast
qed

text \<open>
  Claim C1, as stated, fails. The path \<^verbatim>\<open>/hls/../etc/passwd\<close> has four non-empty
  components and the first is \<^verbatim>\<open>hls\<close>: it is accepted, the component \<^verbatim>\<open>..\<close> goes
  into the resolved path, the answer is 404 on the empty store and 200 with the bytes of
  the file when the store has one there. A path of five components is accepted too.
\<close>

theorem segment_fetch_counterexample:
  "response_status (handle_download demo_env (demo_request get ''/hls/../etc/passwd'' []) [])
     = Some 404 \<and>
   handle_download demo_env (demo_request get ''/hls/../etc/passwd'' [])
       [(''/tmp/hls_storage/../etc/passwd'', File True ''root:x:0:0:'')]
     = [http_async_write
          \<lparr>result = 200, server = ''Wavy Server'', content_type = ''application/octet-stream'',
           payload = ''root:x:0:0:''\<rparr>,
        socket_close] \<and>
   response_status (handle_download demo_env (demo_request get ''/hls/a/b/c/d'' []) [])
     = Some 404"
  by code_simp

subsection \<open>C3: the listing route\<close>

text \<open>
  Claim C3, as the code has it. When the storage root is missing or is not a directory,
  \<open>handle_list_ips\<close> answers 500. When it is a directory without owner directories, the
  answer is 404. Otherwise the answer is 200 with content type \<^verbatim>\<open>text/plain\<close> and the
  listing as its body: each owner followed by its asset-ids.
\<close>

theorem listing_route:
  "(\<not> fs_is_directory fs SERVER_STORAGE_DIR \<longrightarrow>
      handle_list_ips e fs = send_response e SERVER_ERROR_500 \<and>
      response_status (handle_list_ips e fs) = Some 500) \<and>
   (fs_is_directory fs SERVER_STORAGE_DIR \<and> subdirectories fs SERVER_STORAGE_DIR = [] \<longrightarrow>
      handle_list_ips e fs = send_response e SERVER_ERROR_404 \<and>
      response_status (handle_list_ips e fs) = Some 404) \<and>
   (fs_is_directory fs SERVER_STORAGE_DIR \<and> subdirectories fs SERVER_STORAGE_DIR \<noteq> [] \<longrightarrow>
      handle_list_ips e fs =
        send_response e
          (Text (''HTTP/1.1 200 OK'' @ CRLF @ ''Content-Type: text/plain'' @ CRLF @ CRLF @
                 listing_text fs)) \<and>
      response_status (handle_list_ips e fs) = Some 200)"
proof (intro conjI impI)
  assume "\<not> fs_is_directory fs SERVER_STORAGE_DIR"
  then show "handle_list_ips e fs = send_response e SERVER_ERROR_500"
    by (simp add: handle_list_ips_def Let_def)
  then show "response_status (handle_list_ips e fs) = Some 500"
    by (simp add: send_response_events)
next
  assume a: "fs_is_directory fs SERVER_STORAGE_DIR \<and> subdirectories fs SERVER_STORAGE_DIR = []"
  then show "handle_list_ips e fs = send_response e SERVER_ERROR_404"
    using directory_exists [of fs SERVER_STORAGE_DIR]
    by (simp add: handle_list_ips_def Let_def list_ip_ids_eq subdirectories_def)
  then show "response_status (handle_list_ips e fs) = Some 404"
    by (simp add: send_response_events)
next
  assume a: "fs_is_directory fs SERVER_STORAGE_DIR \<and> subdirectories fs SERVER_STORAGE_DIR \<noteq> []"
  then show "handle_list_ips e fs =
        send_response e
          (Text (''HTTP/1.1 200 OK'' @ CRLF @ ''Content-Type: text/plain'' @ CRLF @ CRLF @
                 listing_text fs))"
    using directory_exists [of fs SERVER_STORAGE_DIR]
    by (simp add: handle_list_ips_def Let_def list_ip_ids_eq subdirectories_def listing_text_def)
  then show "response_status (handle_list_ips e fs) = Some 200"
    using status_200_listing by (simp add: send_response_events)
qed

theorem listing_route_witness:
  "(let fs = [(''/tmp/hls_storage'', Dir), (''/tmp/hls_storage/192.168.1.10'', Dir),
              (''/tmp/hls_storage/192.168.1.10/a1'', Dir),
              (''/tmp/hls_storage/192.168.1.10/a1/index.m3u8'', File True ''#EXTM3U'')]
    in fs_is_directory fs SERVER_STORAGE_DIR \<and>
       subdirectories fs SERVER_STORAGE_DIR = [''/tmp/hls_storage/192.168.1.10''] \<and>
       listing_text fs = ''192.168.1.10:'' @ [CHR 0x0A] @ ''  - a1'' @ [CHR 0x0A] \<and>
       response_status (handle_list_ips demo_env fs) = Some 200 \<and>
       \<not> fs_is_directory [(''/tmp/hls_storage'', File True [])] SERVER_STORAGE_DIR \<and>
       response_status (handle_list_ips demo_env [(''/tmp/hls_storage'', File True [])]) = Some 500 \<and>
       fs_is_directory [(''/tmp/hls_storage'', Dir)] SERVER_STORAGE_DIR \<and>
       subdirectories [(''/tmp/hls_storage'', Dir)] SERVER_STORAGE_DIR = [] \<and>
       response_status (handle_list_ips demo_env [(''/tmp/hls_storage'', Dir)]) = Some 404)"
proof -
  let ?fs = "[(''/tmp/hls_storage'', Dir), (''/tmp/hls_storage/192.168.1.10'', Dir),
              (''/tmp/hls_storage/192.168.1.10/a1'', Dir),
              (''/tmp/hls_storage/192.168.1.10/a1/index.m3u8'', File True ''#EXTM3U'')]"
  have d: "fs_is_directory ?fs SERVER_STORAGE_DIR" by code_simp
  have s: "subdirectories ?fs SERVER_STORAGE_DIR = [''/tmp/hls_storage/192.168.1.10'']"
    by code_simp
  have l: "listing_text ?fs = ''192.168.1.10:'' @ [CHR 0x0A] @ ''  - a1'' @ [CHR 0x0A]"
    by code_simp
  have f: "\<not> fs_is_directory [(''/tmp/hls_storage'', File True [])] SERVER_STORAGE_DIR"
    by code_simp
  have d0: "fs_is_directory [(''/tmp/hls_storage'', Dir)] SERVER_STORAGE_DIR" by code_simp
  have s0: "subdirectories [(''/tmp/hls_storage'', Dir)] SERVER_STORAGE_DIR = []" by code_simp
  have ne: "subdirectories ?fs SERVER_STORAGE_DIR \<noteq> []"
    unfolding s by simp
  have r200: "response_status (handle_list_ips demo_env ?fs) = Some 200"
    using listing_route [of ?fs demo_env] d ne by blast
  have r500: "response_status (handle_list_ips demo_env [(''/tmp/hls_storage'', File True [])]) = Some 500"
    using listing_route [of "[(''/tmp/hls_storage'', File True [])]" demo_env] f by blast
  have r404: "response_status (handle_list_ips demo_env [(''/tmp/hls_storage'', Dir)]) = Some 404"
    using listing_route [of "[(''/tmp/hls_storage'', Dir)]" demo_env] d0 s0 by blast
  from d s l f d0 s0 r200 r500 r404 show ?thesis unfolding Let_def by blast
qed

text \<open>
  Claim C3, as stated, fails where the storage root is missing: the answer is 500, not
  404.
\<close>

theorem listing_route_counterexample:
  "\<not> fs_exists [] SERVER_STORAGE_DIR \<and>
   handle_list_ips demo_env [] = [async_write SERVER_ERROR_500, async_shutdown, socket_close] \<and>
   response_status (handle_list_ips demo_env []) = Some 500"
  by code_simp

subsection \<open>C6: entries with the block-compression suffix\<close>



subsection \<open>C2: the asset directory after a failed upload\<close>

text \<open>
  Claim C2, as the code has it. Take an upload whose body is staged (the output stream
  opens and writes, the body is not empty) under a fresh asset-id, on a disk where the
  directories of the upload can be made (no regular file lies on the way to the staging
  directory or to the asset directory, the path of the staged archive is not a
  directory), with an owner string, an asset-id and entry names that lead to places
  below the directory they are resolved in, and where, once the extractor has written an
  entry, the staging directory holds regular files only, as it does for a flat archive.
  Then \<open>extract_and_validate\<close> returns, with success exactly when the extractor has
  written at least one entry and some file listed in the staging directory passes the
  sweep; the response is 200 when it succeeds and 400 when it does not; afterwards the
  owner's asset directory exists exactly when the extractor has written at least one
  entry, and the staged archive is gone. The directory is created before the sweep and
  stays when the sweep promotes nothing.
\<close>

theorem upload_asset_directory:
  "(let gzip_path = SERVER_TEMP_STORAGE_DIR @ ''/'' @ uuid e @ COMPRESSED_ARCHIVE_EXT;
        temp_extract_path = SERVER_TEMP_STORAGE_DIR @ ''/'' @ uuid e;
        storage_path = SERVER_STORAGE_DIR @ ''/'' @ ip_id @ ''/'' @ uuid e;
        fs2 = ofstream_write (fs_create_directories fs SERVER_TEMP_STORAGE_DIR) gzip_path
                (body request);
        extraction = extract_payload e gzip_path temp_extract_path
                       (fs_create_directories fs2 temp_extract_path);
        fs3 = fs_create_directories (snd extraction) storage_path;
        staged = fs_directory_iterator fs3 temp_extract_path;
        passing = filter (reaches_rename fs3) staged;
        session = handle_upload e ip_id request fs
    in ofs_open_ok e \<and> ofs_write_ok e \<and> body request \<noteq> [] \<and>
       \<not> fs_exists fs storage_path \<and>
       (\<forall>d \<in> set (directories temp_extract_path @ directories storage_path).
          \<not> fs_is_regular_file fs d) \<and>
       \<not> fs_is_directory fs gzip_path \<and>
       descends ip_id \<and> descends (uuid e) \<and>
       (\<forall>entries. archive_read e (body request) = Some entries \<longrightarrow>
          (\<forall>entry \<in> set entries. descends (pathname entry))) \<and>
       (fst extraction \<longrightarrow> (\<forall>f \<in> set staged. fs_is_regular_file fs3 f))
       \<longrightarrow>
         fst (extract_and_validate e gzip_path (uuid e) ip_id fs2)
           = Inr (fst extraction \<and> passing \<noteq> []) \<and>
         response_status (fst session)
           = Some (if fst extraction \<and> passing \<noteq> [] then 200 else 400) \<and>
         (fs_is_directory (snd session) storage_path \<longleftrightarrow> fst extraction) \<and>
         \<not> fs_exists (snd session) gzip_path)"
proof -
  let ?gzip = "SERVER_TEMP_STORAGE_DIR @ ''/'' @ uuid e @ COMPRESSED_ARCHIVE_EXT"
  let ?temp = "SERVER_TEMP_STORAGE_DIR @ ''/'' @ uuid e"
  let ?sp = "SERVER_STORAGE_DIR @ ''/'' @ ip_id @ ''/'' @ uuid e"
  let ?fs2 = "ofstream_write (fs_create_directories fs SERVER_TEMP_STORAGE_DIR) ?gzip (body request)"
  let ?x = "extract_payload e ?gzip ?temp (fs_create_directories ?fs2 ?temp)"
  let ?fs3 = "fs_create_directories (snd ?x) ?sp"
  let ?staged = "fs_directory_iterator ?fs3 ?temp"
  let ?passing = "filter (reaches_rename ?fs3) ?staged"
  let ?session = "handle_upload e ip_id request fs"
  let ?eav = "extract_and_validate e ?gzip (uuid e) ip_id ?fs2"
  have main: "fst ?eav = Inr (fst ?x \<and> ?passing \<noteq> []) \<and>
      response_status (fst ?session) = Some (if fst ?x \<and> ?passing \<noteq> [] then 200 else 400) \<and>
      (fs_is_directory (snd ?session) ?sp \<longleftrightarrow> fst ?x) \<and>
      \<not> fs_exists (snd ?session) ?gzip"
    if staged: "ofs_open_ok e" "ofs_write_ok e" "body request \<noteq> []"
      and fresh: "\<not> fs_exists fs ?sp"
      and regular: "fst ?x \<longrightarrow> (\<forall>f \<in> set ?staged. fs_is_regular_file ?fs3 f)"
  proof -
    have present: "fs_exists ?fs2 ?gzip" by (rule staged_archive_present)
    have before: "fs_node (snd ?x) ?sp = None"
      using asset_untouched_before_sweep [of e ?gzip "uuid e" fs "body request" ip_id] fresh
      by (simp add: fs_exists_def)
    have apart: "canonical ?sp \<noteq> canonical ?gzip"
      using archive_is_not_asset [of ip_id "uuid e"] by simp
    obtain ok fsx where x: "?x = (ok, fsx)" by (cases ?x)
    show ?thesis
    proof (cases ok)
      case False
      have eav: "?eav = (Inr False, fsx)"
        using validation_not_extracted [OF present, of e "uuid e" fsx ip_id] x False by simp
      have up: "?session = (send_response e SERVER_ERROR_400, fs_remove fsx ?gzip)"
        using staged_archive_invalid [OF staged, of ip_id fs fsx] eav by simp
      have "fs_node (fs_remove fsx ?gzip) ?sp = None"
        using before x apart by (simp add: fs_node_remove)
      then show ?thesis
        unfolding up eav using x False
        by (simp add: send_response_events fs_is_directory_def fs_exists_def fs_node_remove)
    next
      case True
      from regular x True have reg: "\<forall>f \<in> set ?staged. fs_is_regular_file ?fs3 f" by simp
      have "fst (validate_files ?sp ?staged 0 ?fs3) = Inr (0 + length ?passing)"
        by (rule sweep_count [OF distinct_fs_directory_iterator listed_canonical staging_apart reg])
      then obtain fs4 where sw: "validate_files ?sp ?staged 0 ?fs3 = (Inr (length ?passing), fs4)"
        by (cases "validate_files ?sp ?staged 0 ?fs3") simp
      have eav: "?eav = (Inr (?passing \<noteq> []), fs4)"
        using validation_swept [OF present, of e "uuid e" fsx ip_id "length ?passing" fs4]
              x True sw
        by simp
      have made: "fs_node ?fs3 ?sp = Some Dir"
        using create_directories_makes [OF asset_components [of ip_id "uuid e"], of "snd ?x"] before
        by simp
      have kept: "fs_node fs4 ?sp = Some Dir"
        using sweep_keeps_directory [of ip_id "uuid e" ?fs3 0] sw made by simp
      have final: "fs_node (fs_remove fs4 ?gzip) ?sp = Some Dir"
        using kept apart by (simp add: fs_node_remove)
      show ?thesis
      proof (cases "?passing = []")
        case none: True
        have up: "?session = (send_response e SERVER_ERROR_400, fs_remove fs4 ?gzip)"
          using staged_archive_invalid [OF staged, of ip_id fs fs4] eav none by simp
        show ?thesis
          unfolding up eav using x True none final
          by (simp add: send_response_events fs_is_directory_def fs_exists_def fs_node_remove)
      next
        case some: False
        have up: "?session =
            (send_response e
               (Text (''HTTP/1.1 200 OK'' @ CRLF @ ''Client-ID: '' @ uuid e @ CRLF @ CRLF)),
             fs_remove fs4 ?gzip)"
          using staged_archive_valid [OF staged, of ip_id fs fs4] eav some by simp
        have st: "response_status (fst ?session) = Some 200"
          unfolding up using status_200_upload [of "uuid e"] by (simp add: send_response_events)
        have "fs_is_directory (snd ?session) ?sp" "\<not> fs_exists (snd ?session) ?gzip"
          unfolding up using final by (simp_all add: fs_is_directory_def fs_exists_def fs_node_remove)
        then show ?thesis
          using st eav x True some by simp
      qed
    qed
  qed
  show ?thesis unfolding Let_def using main by blast
qed

text \<open>
  Claim C2, as stated, fails. The archive holds one file, \<^verbatim>\<open>seg_0.ts\<close>, whose first
  byte is 0. The sweep removes it, no file passes, the response is 400, and the owner's
  asset directory, created before the sweep, is there afterwards, empty.
\<close>

theorem upload_asset_directory_counterexample:
  "response_status (fst (handle_upload demo_env demo_ip (demo_request post ''/'' ''archive-1'') []))
     = Some 400 \<and>
   fs_is_directory (snd (handle_upload demo_env demo_ip (demo_request post ''/'' ''archive-1'') []))
     (SERVER_STORAGE_DIR @ ''/'' @ demo_ip @ ''/'' @ demo_uuid) \<and>
   fs_directory_iterator (snd (handle_upload demo_env demo_ip (demo_request post ''/'' ''archive-1'') []))
     (SERVER_STORAGE_DIR @ ''/'' @ demo_ip @ ''/'' @ demo_uuid) = []"
  by code_simp

theorem upload_asset_directory_witness:
  "(let request = demo_request post ''/'' ''archive-1'';
        gzip_path = SERVER_TEMP_STORAGE_DIR @ ''/'' @ uuid demo_env @ COMPRESSED_ARCHIVE_EXT;
        temp_extract_path = SERVER_TEMP_STORAGE_DIR @ ''/'' @ uuid demo_env;
        storage_path = SERVER_STORAGE_DIR @ ''/'' @ demo_ip @ ''/'' @ uuid demo_env;
        fs2 = ofstream_write (fs_create_directories [] SERVER_TEMP_STORAGE_DIR) gzip_path
                (body request);
        extraction = extract_payload demo_env gzip_path temp_extract_path
                       (fs_create_directories fs2 temp_extract_path);
        fs3 = fs_create_directories (snd extraction) storage_path;
        staged = fs_directory_iterator fs3 temp_extract_path;
        session = handle_upload demo_env demo_ip request []
    in ofs_open_ok demo_env \<and> ofs_write_ok demo_env \<and> body request \<noteq> [] \<and>
       \<not> fs_exists [] storage_path \<and>
       (\<forall>d \<in> set (directories temp_extract_path @ directories storage_path).
          \<not> fs_is_regular_file [] d) \<and>
       \<not> fs_is_directory [] gzip_path \<and>
       descends demo_ip \<and> descends (uuid demo_env) \<and>
       (\<forall>entries. archive_read demo_env (body request) = Some entries \<longrightarrow>
          (\<forall>entry \<in> set entries. descends (pathname entry))) \<and>
       fst extraction \<and>
       staged = [temp_extract_path @ ''/seg_0.ts''] \<and>
       (\<forall>f \<in> set staged. fs_is_regular_file fs3 f) \<and>
       filter (reaches_rename fs3) staged = [] \<and>
       fst (extract_and_validate demo_env gzip_path (uuid demo_env) demo_ip fs2) = Inr False \<and>
       response_status (fst session) = Some 400 \<and>
       fs_is_directory (snd session) storage_path \<and>
       \<not> fs_exists (snd session) gzip_path)"
proof -
  let ?r = "demo_request post ''/'' ''archive-1''"
  let ?gzip = "SERVER_TEMP_STORAGE_DIR @ ''/'' @ uuid demo_env @ COMPRESSED_ARCHIVE_EXT"
  let ?temp = "SERVER_TEMP_STORAGE_DIR @ ''/'' @ uuid demo_env"
  let ?sp = "SERVER_STORAGE_DIR @ ''/'' @ demo_ip @ ''/'' @ uuid demo_env"
  let ?fs2 = "ofstream_write (fs_create_directories [] SERVER_TEMP_STORAGE_DIR) ?gzip (body ?r)"
  let ?x = "extract_payload demo_env ?gzip ?temp (fs_create_directories ?fs2 ?temp)"
  let ?fs3 = "fs_create_directories (snd ?x) ?sp"
  let ?staged = "fs_directory_iterator ?fs3 ?temp"
  let ?session = "handle_upload demo_env demo_ip ?r []"
  have h1: "ofs_open_ok demo_env \<and> ofs_write_ok demo_env \<and> body ?r \<noteq> []"
    by (simp add: demo_env_def demo_request_def)
  have h2: "\<not> fs_exists [] ?sp" by (simp add: fs_exists_def fs_node_def)
  have h3: "\<forall>d \<in> set (directories ?temp @ directories ?sp). \<not> fs_is_regular_file [] d"
    by (simp add: fs_is_regular_file_def fs_node_def)
  have h4: "\<not> fs_is_directory [] ?gzip" by (simp add: fs_is_directory_def fs_node_def)
  have g1: "descends demo_ip \<and> descends (uuid demo_env)" by code_simp
  have "descends ''seg_0.ts''" by code_simp
  then have g2: "\<forall>entries. archive_read demo_env (body ?r) = Some entries \<longrightarrow>
                  (\<forall>entry \<in> set entries. descends (pathname entry))"
    by (auto simp: demo_env_def demo_request_def demo_archive_read_def demo_entry_def)
  have x: "fst ?x" by code_simp
  have l: "?staged = [?temp @ ''/seg_0.ts'']" by code_simp
  have h5: "\<forall>f \<in> set ?staged. fs_is_regular_file ?fs3 f" by code_simp
  have p: "filter (reaches_rename ?fs3) ?staged = []" by code_simp
  note t = upload_asset_directory [of demo_env demo_ip "[]" ?r, unfolded Let_def]
  from t h1 h2 h3 h4 g1 g2 h5
  have c: "fst (extract_and_validate demo_env ?gzip (uuid demo_env) demo_ip ?fs2)
             = Inr (fst ?x \<and> filter (reaches_rename ?fs3) ?staged \<noteq> []) \<and>
           response_status (fst ?session)
             = Some (if fst ?x \<and> filter (reaches_rename ?fs3) ?staged \<noteq> [] then 200 else 400) \<and>
           (fs_is_directory (snd ?session) ?sp \<longleftrightarrow> fst ?x) \<and>
           \<not> fs_exists (snd ?session) ?gzip"
    by blast
  then have c': "fst (extract_and_validate demo_env ?gzip (uuid demo_env) demo_ip ?fs2) = Inr False \<and>
           response_status (fst ?session) = Some 400 \<and>
           fs_is_directory (snd ?session) ?sp \<and>
           \<not> fs_exists (snd ?session) ?gzip"
    unfolding p using x by simp
  from h1 h2 h3 h4 g1 g2 x l h5 p c' show ?thesis unfolding Let_def by blast
qed

subsection \<open>C4: the staged archive after an early return\<close>

text \<open>
  Claim C4 on a POST with an empty body. The output stream creates the staged archive,
  nothing is written, the file has size 0, the response is 400, and \<open>handle_upload\<close>
  returns before the \<^verbatim>\<open>fs::remove(gzip_path)\<close> at its end: the empty staged archive is
  still in the store after the session.
\<close>

theorem empty_upload_leaves_archive:
  "start demo_env demo_ip (Request (demo_request post ''/upload'' [])) [] =
     ([async_write (Text (''HTTP/1.1 400 Bad Request'' @ CRLF @ CRLF @ ''GZIP upload failed'')),
       async_shutdown, socket_close],
      [(''/tmp'', Dir), (''/tmp/hls_temp'', Dir),
       (''/tmp/hls_temp/1435f431-a69a-4027-8661-44c31cd11ef6.tar.gz'', File True [])])"
proof -
  have "handle_upload demo_env demo_ip (demo_request post ''/upload'' []) [] =
     ([async_write (Text (''HTTP/1.1 400 Bad Request'' @ CRLF @ CRLF @ ''GZIP upload failed'')),
       async_shutdown, socket_close],
      [(''/tmp'', Dir), (''/tmp/hls_temp'', Dir),
       (''/tmp/hls_temp/1435f431-a69a-4027-8661-44c31cd11ef6.tar.gz'', File True [])])"
    by code_simp
  moreover have "\<not> handshake_ec demo_env" by (simp add: demo_env_def)
  ultimately show ?thesis
    by (simp add: start_def do_handshake_def do_read_def process_request_def demo_request_def
          WAVY_SERVER_AUDIO_SIZE_LIMIT_def)
qed

theorem empty_upload_leaves_archive_witness:
  "fs_is_regular_file
     (snd (start demo_env demo_ip (Request (demo_request post ''/upload'' [])) []))
     (SERVER_TEMP_STORAGE_DIR @ ''/'' @ demo_uuid @ COMPRESSED_ARCHIVE_EXT) \<and>
   response_status (fst (start demo_env demo_ip (Request (demo_request post ''/upload'' [])) []))
     = Some 400"
proof -
  have "fs_is_regular_file
          [(''/tmp'', Dir), (''/tmp/hls_temp'', Dir),
           (''/tmp/hls_temp/1435f431-a69a-4027-8661-44c31cd11ef6.tar.gz'', File True [])]
          (SERVER_TEMP_STORAGE_DIR @ ''/'' @ demo_uuid @ COMPRESSED_ARCHIVE_EXT)"
    by code_simp
  then show ?thesis
    unfolding empty_upload_leaves_archive by (simp add: digits_to_nat_def)
qed

subsection \<open>C5: the TLS shutdown after a served file\<close>

text \<open>
  Claim C5 on a GET of a stored file. The response goes out through
  \<^verbatim>\<open>http::async_write\<close>, whose completion handler closes the socket directly: the
  session starts no TLS shutdown.
\<close>

theorem served_file_skips_tls_shutdown:
  "start demo_env demo_ip
     (Request (demo_request get ''/hls/192.168.1.10/a1/index.m3u8'' []))
     [(''/tmp/hls_storage/192.168.1.10/a1/index.m3u8'', File True ''#EXTM3U'')]
   = ([http_async_write
         \<lparr>result = 200, server = ''Wavy Server'',
          content_type = ''application/vnd.apple.mpegurl'', payload = ''#EXTM3U''\<rparr>,
       socket_close],
      [(''/tmp/hls_storage/192.168.1.10/a1/index.m3u8'', File True ''#EXTM3U'')])"
proof -
  have "handle_download demo_env (demo_request get ''/hls/192.168.1.10/a1/index.m3u8'' [])
          [(''/tmp/hls_storage/192.168.1.10/a1/index.m3u8'', File True ''#EXTM3U'')]
        = [http_async_write
             \<lparr>result = 200, server = ''Wavy Server'',
              content_type = ''application/vnd.apple.mpegurl'', payload = ''#EXTM3U''\<rparr>,
           socket_close]"
    by code_simp
  moreover have "\<not> handshake_ec demo_env" by (simp add: demo_env_def)
  ultimately show ?thesis
    by (simp add: start_def do_handshake_def do_read_def process_request_def demo_request_def
          WAVY_SERVER_AUDIO_SIZE_LIMIT_def SERVER_PATH_HLS_CLIENTS_def)
qed

theorem served_file_skips_tls_shutdown_witness:
  "async_shutdown \<notin> set (fst (start demo_env demo_ip
     (Request (demo_request get ''/hls/192.168.1.10/a1/index.m3u8'' []))
     [(''/tmp/hls_storage/192.168.1.10/a1/index.m3u8'', File True ''#EXTM3U'')]))"
  unfolding served_file_skips_tls_shutdown by simp


end
